theory Spec2Isabelle
  imports Main
begin

section \<open>Strings and numbers of the client\<close>

text \<open>
  The client is TypeScript. A string is modelled as a list of characters with code points
  below 256; on these \<open>toLowerCase\<close> is what \<^verbatim>\<open>String.prototype.toLowerCase\<close> computes
  (the letters A to Z and the Latin-1 capitals move up by 32). Numbers that the code counts
  with (\<^verbatim>\<open>attempts\<close>, \<^verbatim>\<open>consecutiveErrors\<close>) are naturals, the caller's numbers
  (\<^verbatim>\<open>pollInterval\<close>, \<^verbatim>\<open>maxAttempts\<close>, \<^verbatim>\<open>progress\<close>) are integers.
\<close>

definition toLowerCaseChar :: "char \<Rightarrow> char" where
  "toLowerCaseChar c =
     (let n = (of_char c :: nat)
      in if (65 \<le> n \<and> n \<le> 90) \<or> (192 \<le> n \<and> n \<le> 222 \<and> n \<noteq> 215)
         then char_of (n + 32) else c)"

definition toLowerCase :: "string \<Rightarrow> string" where
  "toLowerCase s = map toLowerCaseChar s"

fun startsWith :: "string \<Rightarrow> string \<Rightarrow> bool" where
  "startsWith s [] = True"
| "startsWith [] (c # cs) = False"
| "startsWith (x # xs) (c # cs) = (x = c \<and> startsWith xs cs)"

text \<open>
  \<^verbatim>\<open>s.includes(sub)\<close>: \<open>sub\<close> occurs in \<open>s\<close> as a contiguous piece. The source's
  name is a keyword of the prover, hence \<open>includesStr\<close>.
\<close>

fun includesStr :: "string \<Rightarrow> string \<Rightarrow> bool" where
  "includesStr [] sub = (sub = [])"
| "includesStr (x # xs) sub = (startsWith (x # xs) sub \<or> includesStr xs sub)"

text \<open>\<^verbatim>\<open>a || b\<close> on strings: the empty string is falsy.\<close>

definition orStr :: "string \<Rightarrow> string \<Rightarrow> string" where
  "orStr a b = (if a = [] then b else a)"

text \<open>\<^verbatim>\<open>a || b\<close> where \<open>a\<close> may be \<^verbatim>\<open>undefined\<close>.\<close>

definition orUndef :: "string option \<Rightarrow> string \<Rightarrow> string" where
  "orUndef a b = (case a of None \<Rightarrow> b | Some s \<Rightarrow> orStr s b)"

text \<open>Decimal rendering of an integer inside a template literal.\<close>

fun digits :: "nat \<Rightarrow> string" where
  "digits n =
     (if n < 10 then [char_of (48 + n)]
      else digits (n div 10) @ [char_of (48 + n mod 10)])"

declare digits.simps [simp del]

definition showNumber :: "int \<Rightarrow> string" where
  "showNumber i = (if i < 0 then CHR ''-'' # digits (nat (- i)) else digits (nat i))"

section \<open>Data model\<close>

text \<open>
  \<^verbatim>\<open>JobStatus\<close> of \<^verbatim>\<open>services/api.ts\<close>. The fields \<^verbatim>\<open>result\<close>, \<^verbatim>\<open>videos\<close>,
  \<^verbatim>\<open>paper\<close>, \<^verbatim>\<open>segments\<close> and \<^verbatim>\<open>segments_count\<close> are read neither by the poller nor by
  the stage mapper; they travel together in \<open>payload\<close>.
\<close>

datatype Lifecycle = JobQueued | JobProcessing | JobCompleted | JobFailed

record 'p JobStatus =
  job_id :: string
  status :: Lifecycle
  stage :: "string option"
  stage_detail :: "string option"
  progress :: "int option"
  error :: "string option"
  payload :: 'p

text \<open>
  \<^verbatim>\<open>ProcessingStep\<close> of the application component. The field \<^verbatim>\<open>id\<close> is \<open>step_id\<close>
  and the field \<^verbatim>\<open>status\<close> is \<open>step_status\<close> here.
\<close>

datatype StepStatus = Pending | Active | Completed | Error

record ProcessingStep =
  step_id :: string
  title :: string
  description :: string
  step_status :: StepStatus

text \<open>The initial value of the \<^verbatim>\<open>processingSteps\<close> state.\<close>

definition initialSteps :: "ProcessingStep list" where
  "initialSteps =
     [\<lparr>step_id = ''fetch'', title = ''Fetching Paper'', description = ''Downloading...'',
        step_status = Pending\<rparr>,
      \<lparr>step_id = ''extract'', title = ''Extracting'', description = ''Analyzing...'',
        step_status = Pending\<rparr>,
      \<lparr>step_id = ''segment'', title = ''Segmenting'', description = ''Breaking down...'',
        step_status = Pending\<rparr>,
      \<lparr>step_id = ''animate'', title = ''Animating'', description = ''Creating visuals...'',
        step_status = Pending\<rparr>]"

section \<open>Stage mapper\<close>

text \<open>
  \<^verbatim>\<open>updateStep\<close> replaces the step list by its image under a map; the description is kept
  when the argument is missing or empty. A state update
  \<^verbatim>\<open>setProcessingSteps(steps => f(steps))\<close> is the function \<open>f\<close> on the step list.
\<close>

definition updateStep ::
  "string \<Rightarrow> StepStatus \<Rightarrow> string option \<Rightarrow> ProcessingStep list \<Rightarrow> ProcessingStep list" where
  "updateStep stepId st desc steps =
     map (\<lambda>s. if step_id s = stepId
              then s\<lparr>step_status := st, description := orUndef desc (description s)\<rparr>
              else s) steps"

text \<open>\<^verbatim>\<open>status.stage?.toLowerCase() || ''\<close>\<close>

definition stageOf :: "'p JobStatus \<Rightarrow> string" where
  "stageOf snap = orUndef (map_option toLowerCase (stage snap)) ''''"

definition handleProgress :: "'p JobStatus \<Rightarrow> ProcessingStep list \<Rightarrow> ProcessingStep list" where
  "handleProgress snap steps =
     (let stage = stageOf snap;
          detail = orUndef (stage_detail snap) '''';
          progress = (case progress snap of None \<Rightarrow> 0 | Some p \<Rightarrow> p)
      in if stage = ''queued'' then
           updateStep ''fetch'' Active (Some ''Queued, waiting to start...'') steps
         else if stage = ''fetching'' \<or> includesStr stage ''fetch'' then
           updateStep ''fetch'' Active
             (Some (orStr detail (''Downloading paper... '' @ showNumber progress @ ''%''))) steps
         else if stage = ''extracting'' \<or> includesStr stage ''extract'' then
           updateStep ''extract'' Active (Some (orStr detail ''Analyzing content...''))
             (updateStep ''fetch'' Completed (Some ''Paper downloaded'') steps)
         else if stage = ''segmenting'' \<or> includesStr stage ''segment'' then
           updateStep ''segment'' Active (Some (orStr detail ''Breaking into topics...''))
             (updateStep ''extract'' Completed (Some ''Introduction extracted'')
               (updateStep ''fetch'' Completed None steps))
         else if stage = ''animating'' \<or> includesStr stage ''animat'' then
           updateStep ''animate'' Active
             (Some (orStr detail (''Rendering animations... '' @ showNumber progress @ ''%'')))
             (updateStep ''segment'' Completed (Some ''Segments created'')
               (updateStep ''extract'' Completed None
                 (updateStep ''fetch'' Completed None steps)))
         else if stage = ''completed'' then
           map (\<lambda>s. s\<lparr>step_status := Completed\<rparr>) steps
         else if stage = ''failed'' then
           map (\<lambda>s. if step_status s = Active
                    then s\<lparr>step_status := Error, description := orStr detail ''Failed''\<rparr>
                    else s) steps
         else steps)"

section \<open>Poll session\<close>

text \<open>
  What a \<^verbatim>\<open>catch\<close> clause can receive: an \<^verbatim>\<open>Error\<close> object with its message, or any
  other thrown value (\<^verbatim>\<open>err instanceof Error\<close> tells them apart).
\<close>

datatype thrown = ErrorObj string | NonError

definition errMessage :: "thrown \<Rightarrow> string \<Rightarrow> string" where
  "errMessage err dflt = (case err of ErrorObj m \<Rightarrow> m | NonError \<Rightarrow> dflt)"

text \<open>
  The status endpoint is an oracle: \<open>getJobStatus jobId n\<close> is what the \<open>n\<close>-th request of
  the session for \<open>jobId\<close> yields, a thrown transport error or a snapshot.
\<close>

type_synonym 'p server = "string \<Rightarrow> nat \<Rightarrow> thrown + 'p JobStatus"

text \<open>
  The observable events of a session, in the order they happen: a status request, an
  invocation of the progress callback, a \<^verbatim>\<open>setTimeout(poll, ms)\<close>, and the calls of the
  promise's \<^verbatim>\<open>resolve\<close> and \<^verbatim>\<open>reject\<close>. The \<^verbatim>\<open>console.warn\<close> line of the retry branch
  touches neither counters, timers nor the promise and is not recorded.
\<close>

datatype 'p event =
    Request nat
  | Progress "'p JobStatus"
  | Timer int
  | Resolve "'p JobStatus"
  | Reject thrown

datatype 'p promise = PromisePending | Fulfilled "'p JobStatus" | Rejected thrown

text \<open>
  The arguments of \<^verbatim>\<open>pollJobUntilComplete\<close> after defaults. The progress callback acts
  on the state it updates (for the application, the step list): it yields the state it
  leaves and the value it throws, if it throws.
\<close>

type_synonym ('p, 's) callback = "'p JobStatus \<Rightarrow> 's \<Rightarrow> 's \<times> thrown option"

record ('p, 's) pollArgs =
  jobId :: string
  onProgress :: "('p, 's) callback option"
  pollInterval :: int
  maxAttempts :: int

text \<open>The variables of the closure, the promise, the callback's state and the event log.\<close>

record ('p, 's) session =
  attempts :: nat
  consecutiveErrors :: nat
  promise :: "'p promise"
  cbState :: 's
  trace :: "'p event list"

definition maxConsecutiveErrors :: nat where
  "maxConsecutiveErrors = 10"

text \<open>A promise settles once; a later \<^verbatim>\<open>resolve\<close> or \<^verbatim>\<open>reject\<close> leaves it as it is.\<close>

definition resolve :: "'p JobStatus \<Rightarrow> ('p, 's) session \<Rightarrow> ('p, 's) session" where
  "resolve st s =
     s\<lparr>promise := (if promise s = PromisePending then Fulfilled st else promise s),
       trace := trace s @ [Resolve st]\<rparr>"

definition reject :: "thrown \<Rightarrow> ('p, 's) session \<Rightarrow> ('p, 's) session" where
  "reject err s =
     s\<lparr>promise := (if promise s = PromisePending then Rejected err else promise s),
       trace := trace s @ [Reject err]\<rparr>"

definition setTimeout :: "int \<Rightarrow> ('p, 's) session \<Rightarrow> ('p, 's) session \<times> int option" where
  "setTimeout ms s = (s\<lparr>trace := trace s @ [Timer ms]\<rparr>, Some ms)"

text \<open>The \<^verbatim>\<open>catch\<close> block of \<^verbatim>\<open>poll\<close>.\<close>

definition pollCatch ::
  "('p, 's) pollArgs \<Rightarrow> thrown \<Rightarrow> ('p, 's) session \<Rightarrow> ('p, 's) session \<times> int option" where
  "pollCatch a err s =
     (let s1 = s\<lparr>consecutiveErrors := consecutiveErrors s + 1\<rparr>
      in if consecutiveErrors s1 < maxConsecutiveErrors then
           setTimeout (pollInterval a * 2) s1
         else
           (reject (ErrorObj (''Connection lost after '' @ showNumber (int maxConsecutiveErrors)
                       @ '' retries: '' @ errMessage err ''Unknown error'')) s1, None))"

text \<open>
  One run of the closure \<^verbatim>\<open>poll\<close>: the session after it, and the delay of the timer it
  has set, if any. The call of the callback stands inside the \<^verbatim>\<open>try\<close> block, after the
  reset of the streak: what the callback throws goes to the \<^verbatim>\<open>catch\<close> block like a
  failed request.
\<close>

definition pollBody ::
  "'p server \<Rightarrow> ('p, 's) pollArgs \<Rightarrow> ('p, 's) session \<Rightarrow> ('p, 's) session \<times> int option" where
  "pollBody getJobStatus a s =
     (let s1 = s\<lparr>attempts := attempts s + 1\<rparr>;
          s2 = s1\<lparr>trace := trace s1 @ [Request (attempts s1)]\<rparr>
      in case getJobStatus (jobId a) (attempts s1) of
           Inl err \<Rightarrow> pollCatch a err s2
         | Inr st \<Rightarrow>
             (let s3 = s2\<lparr>consecutiveErrors := 0\<rparr>;
                  s4 = (case onProgress a of
                          None \<Rightarrow> s3
                        | Some f \<Rightarrow> s3\<lparr>cbState := fst (f st (cbState s3)),
                                       trace := trace s3 @ [Progress st]\<rparr>);
                  raised = (case onProgress a of
                              None \<Rightarrow> None
                            | Some f \<Rightarrow> snd (f st (cbState s3)))
              in case raised of
                   Some err \<Rightarrow> pollCatch a err s4
                 | None \<Rightarrow>
                     if status st = JobCompleted then (resolve st s4, None)
                     else if status st = JobFailed then
                       (reject (ErrorObj (orUndef (error st) ''Job failed'')) s4, None)
                     else if int (attempts s4) \<ge> maxAttempts a then
                       (reject (ErrorObj ''Job timed out after 30 minutes'') s4, None)
                     else setTimeout (pollInterval a) s4))"

text \<open>
  \<^verbatim>\<open>poll\<close> with the timers it sets: when a run has set a timer, the timer fires and
  \<^verbatim>\<open>poll\<close> runs again. The value is the session when a run leaves no timer; a session
  whose runs set a timer for ever has no such state, and the value is \<open>None\<close>.
\<close>

partial_function (option) poll ::
  "'p server \<Rightarrow> ('p, 's) pollArgs \<Rightarrow> ('p, 's) session \<Rightarrow> ('p, 's) session option" where
  "poll getJobStatus a s =
     (case pollBody getJobStatus a s of
        (s', None) \<Rightarrow> Some s'
      | (s', Some ms) \<Rightarrow> poll getJobStatus a s')"

text \<open>The session after at most \<open>n\<close> runs of the closure.\<close>

fun pollRuns :: "nat \<Rightarrow> 'p server \<Rightarrow> ('p, 's) pollArgs \<Rightarrow> ('p, 's) session \<Rightarrow> ('p, 's) session" where
  "pollRuns 0 getJobStatus a s = s"
| "pollRuns (Suc n) getJobStatus a s =
     (case pollBody getJobStatus a s of
        (s', None) \<Rightarrow> s'
      | (s', Some ms) \<Rightarrow> pollRuns n getJobStatus a s')"

text \<open>
  The closure's variables and the promise before the first run, and the arguments with
  their defaults: a missing \<^verbatim>\<open>pollInterval\<close> is 3000, a missing \<^verbatim>\<open>maxAttempts\<close> is 600.
\<close>

definition pollStart :: "'s \<Rightarrow> ('p, 's) session" where
  "pollStart cb0 =
     \<lparr>attempts = 0, consecutiveErrors = 0, promise = PromisePending, cbState = cb0, trace = []\<rparr>"

definition pollArgsOf ::
  "string \<Rightarrow> ('p, 's) callback option \<Rightarrow> int option \<Rightarrow> int option \<Rightarrow> ('p, 's) pollArgs" where
  "pollArgsOf jid cb pollIntervalArg maxAttemptsArg =
     \<lparr>jobId = jid, onProgress = cb,
      pollInterval = (case pollIntervalArg of None \<Rightarrow> 3000 | Some v \<Rightarrow> v),
      maxAttempts = (case maxAttemptsArg of None \<Rightarrow> 600 | Some v \<Rightarrow> v)\<rparr>"

text \<open>
  \<^verbatim>\<open>pollJobUntilComplete\<close> makes the first call of \<^verbatim>\<open>poll\<close>; the result is the session when
  no timer is left, if that comes.
\<close>

definition pollJobUntilComplete ::
  "'p server \<Rightarrow> string \<Rightarrow> ('p, 's) callback option \<Rightarrow> int option \<Rightarrow> int option
     \<Rightarrow> 's \<Rightarrow> ('p, 's) session option" where
  "pollJobUntilComplete getJobStatus jid cb pollIntervalArg maxAttemptsArg cb0 =
     poll getJobStatus (pollArgsOf jid cb pollIntervalArg maxAttemptsArg) (pollStart cb0)"

text \<open>
  A callback that returns normally on every snapshot, as \<^verbatim>\<open>handleProgress\<close> does, and
  the condition that a session's callback, if there is one, never throws.
\<close>

definition returning :: "('p JobStatus \<Rightarrow> 's \<Rightarrow> 's) \<Rightarrow> ('p, 's) callback" where
  "returning f st c = (f st c, None)"

definition neverThrows :: "('p, 's) callback option \<Rightarrow> bool" where
  "neverThrows cb = (case cb of None \<Rightarrow> True | Some f \<Rightarrow> \<forall>st c. snd (f st c) = None)"

section \<open>The application's use of the session\<close>

text \<open>
  The part of the component state that \<^verbatim>\<open>handleSelectPaper\<close> and the session touch:
  the page, the error banner and the step list. The states \<^verbatim>\<open>segments\<close>, \<^verbatim>\<open>videos\<close>
  and \<^verbatim>\<open>paperTitle\<close> hold pieces of the final snapshot's payload and are left out.
\<close>

datatype AppState = PageHome | PageResults | PageProcessing | PageCompleted | PageGallery

record app =
  state :: AppState
  appError :: "string option"
  processingSteps :: "ProcessingStep list"

text \<open>The \<^verbatim>\<open>catch\<close> block of \<^verbatim>\<open>handleSelectPaper\<close>.\<close>

definition selectCatch :: "thrown \<Rightarrow> app \<Rightarrow> app" where
  "selectCatch err ap =
     ap\<lparr>appError := Some (errMessage err ''Processing failed''),
        processingSteps :=
          map (\<lambda>s. if step_status s = Active \<or> step_status s = Pending
                   then s\<lparr>step_status := Error\<rparr> else s) (processingSteps ap)\<rparr>"

text \<open>The statements of \<^verbatim>\<open>handleSelectPaper\<close> after the \<^verbatim>\<open>await\<close> of the session.\<close>

definition selectDone :: "app \<Rightarrow> app" where
  "selectDone ap =
     ap\<lparr>processingSteps := map (\<lambda>s. s\<lparr>step_status := Completed\<rparr>) (processingSteps ap),
        state := PageCompleted\<rparr>"

text \<open>The first state update of \<^verbatim>\<open>handleSelectPaper\<close>: every step back to pending.\<close>

definition resetSteps :: "ProcessingStep list \<Rightarrow> ProcessingStep list" where
  "resetSteps steps =
     map (\<lambda>s. s\<lparr>step_status := Pending,
                description := (if step_id s = ''fetch'' then ''Starting...''
                                else description s)\<rparr>) steps"

text \<open>
  \<^verbatim>\<open>handleSelectPaper\<close>. The job submission \<^verbatim>\<open>startAsyncProcess\<close> is an oracle like the
  status endpoint: it throws or returns a job identifier. The session is started with
  \<^verbatim>\<open>handleProgress\<close> as its callback and 3000 as its interval; the callback's state is the
  step list. An \<^verbatim>\<open>await\<close> on a promise that never settles does not return: the value is
  \<open>None\<close>.
\<close>

definition handleSelectPaper ::
  "(string \<Rightarrow> thrown + string) \<Rightarrow> 'p server \<Rightarrow> string \<Rightarrow> app \<Rightarrow> app option" where
  "handleSelectPaper startAsyncProcess getJobStatus arxivId ap =
     (let ap1 = ap\<lparr>state := PageProcessing, appError := None,
                   processingSteps := resetSteps (processingSteps ap)\<rparr>;
          ap2 = ap1\<lparr>processingSteps :=
                     updateStep ''fetch'' Active (Some ''Starting job...'') (processingSteps ap1)\<rparr>
      in case startAsyncProcess arxivId of
           Inl err \<Rightarrow> Some (selectCatch err ap2)
         | Inr jid \<Rightarrow>
             (let ap3 = ap2\<lparr>processingSteps :=
                          updateStep ''fetch'' Active (Some ''Job started, fetching paper...'')
                            (processingSteps ap2)\<rparr>
              in case pollJobUntilComplete getJobStatus jid (Some (returning handleProgress))
                        (Some 3000) None (processingSteps ap3) of
                   None \<Rightarrow> None
                 | Some fin \<Rightarrow>
                     (let ap4 = ap3\<lparr>processingSteps := cbState fin\<rparr>
                      in case promise fin of
                           Fulfilled finalStatus \<Rightarrow> Some (selectDone ap4)
                         | Rejected err \<Rightarrow> Some (selectCatch err ap4)
                         | PromisePending \<Rightarrow> None)))"

text \<open>The session that \<^verbatim>\<open>handleSelectPaper\<close> runs for a submitted job.\<close>

definition selectSession ::
  "'p server \<Rightarrow> string \<Rightarrow> app \<Rightarrow> ('p, ProcessingStep list) session option" where
  "selectSession getJobStatus jid ap =
     pollJobUntilComplete getJobStatus jid (Some (returning handleProgress)) (Some 3000) None
       (updateStep ''fetch'' Active (Some ''Job started, fetching paper...'')
         (updateStep ''fetch'' Active (Some ''Starting job...'')
           (resetSteps (processingSteps ap))))"

section \<open>Readings of an event log\<close>

fun isSettle :: "'p event \<Rightarrow> bool" where
  "isSettle (Resolve st) = True"
| "isSettle (Reject err) = True"
| "isSettle e = False"


fun isRequest :: "'p event \<Rightarrow> bool" where
  "isRequest (Request n) = True"
| "isRequest e = False"

fun delaysOf :: "'p event list \<Rightarrow> int list" where
  "delaysOf [] = []"
| "delaysOf (Timer ms # es) = ms # delaysOf es"
| "delaysOf (e # es) = delaysOf es"

definition requestsOf :: "'p event list \<Rightarrow> nat" where
  "requestsOf es = length (filter isRequest es)"

text \<open>The promise state that a call of \<^verbatim>\<open>resolve\<close> or \<^verbatim>\<open>reject\<close> asks for.\<close>

fun settledBy :: "'p event \<Rightarrow> 'p promise" where
  "settledBy (Resolve st) = Fulfilled st"
| "settledBy (Reject err) = Rejected err"
| "settledBy e = PromisePending"

definition settle :: "'p promise \<Rightarrow> 'p promise \<Rightarrow> 'p promise" where
  "settle new old = (if old = PromisePending then new else old)"

text \<open>
  What \<^verbatim>\<open>onProgress?.(status)\<close> does to the callback's state and to the log, and what it
  throws.
\<close>

definition notify :: "('p, 's) pollArgs \<Rightarrow> 'p JobStatus \<Rightarrow> 's \<Rightarrow> 's" where
  "notify a st c = (case onProgress a of None \<Rightarrow> c | Some f \<Rightarrow> fst (f st c))"

definition thrownBy :: "('p, 's) pollArgs \<Rightarrow> 'p JobStatus \<Rightarrow> 's \<Rightarrow> thrown option" where
  "thrownBy a st c = (case onProgress a of None \<Rightarrow> None | Some f \<Rightarrow> snd (f st c))"

definition progressEvents :: "('p, 's) pollArgs \<Rightarrow> 'p JobStatus \<Rightarrow> 'p event list" where
  "progressEvents a st = (case onProgress a of None \<Rightarrow> [] | Some f \<Rightarrow> [Progress st])"

text \<open>The rejection message of an exhausted failure streak, with the limit written out.\<close>

definition lostMessage :: "thrown \<Rightarrow> string" where
  "lostMessage err = ''Connection lost after 10 retries: '' @ errMessage err ''Unknown error''"

text \<open>The step at which a snapshot's stage token points as the running one, if any.\<close>

definition stageTarget :: "'p JobStatus \<Rightarrow> string option" where
  "stageTarget snap =
     (let stage = stageOf snap
      in if stage = ''queued'' \<or> includesStr stage ''fetch'' then Some ''fetch''
         else if includesStr stage ''extract'' then Some ''extract''
         else if includesStr stage ''segment'' then Some ''segment''
         else if includesStr stage ''animat'' then Some ''animate''
         else None)"

definition terminal :: "ProcessingStep \<Rightarrow> bool" where
  "terminal s = (step_status s = Completed \<or> step_status s = Error)"

text \<open>A session's successful snapshots, fed to the stage mapper in their order of arrival.\<close>

definition applySnapshots :: "'p JobStatus list \<Rightarrow> ProcessingStep list \<Rightarrow> ProcessingStep list" where
  "applySnapshots snaps steps = foldl (\<lambda>acc snap. handleProgress snap acc) steps snaps"

section \<open>The polling algorithm as the specification words it\<close>

text \<open>
  The specification's section on the Poll Session, with the four options of its section on
  external interfaces: the interval, the attempt budget, the failure-streak tolerance and
  the backoff multiplier. This definition follows the specification's text, not the source;
  it exists to be compared with \<open>pollJobUntilComplete\<close>.
\<close>

record pollOptions =
  opt_pollIntervalMs :: int
  opt_maxAttempts :: int
  opt_maxConsecutiveErrors :: int
  opt_backoffMultiplier :: int

datatype 'p PollOutcome =
    Succeeded "'p JobStatus"
  | FailedJob "string option"
  | FailedConnection int thrown
  | TimedOut

text \<open>
  The result is the outcome, the number of status requests made, the delays of the ticks
  scheduled, and the callback's state. The specification's callback is a function on its
  state: the text gives it no way to fail.
\<close>

function specPoll ::
  "'p server \<Rightarrow> string \<Rightarrow> ('p JobStatus \<Rightarrow> 's \<Rightarrow> 's) option \<Rightarrow> pollOptions
     \<Rightarrow> nat \<Rightarrow> nat \<Rightarrow> int list \<Rightarrow> 's \<Rightarrow> 'p PollOutcome \<times> nat \<times> int list \<times> 's" where
  "specPoll g jid cb opts att cerrs delays st =
     (case g jid (att + 1) of
        Inr snap \<Rightarrow>
          (let st' = (case cb of None \<Rightarrow> st | Some f \<Rightarrow> f snap st)
           in if status snap = JobCompleted then (Succeeded snap, att + 1, delays, st')
              else if status snap = JobFailed then (FailedJob (error snap), att + 1, delays, st')
              else if int (att + 1) \<ge> opt_maxAttempts opts then (TimedOut, att + 1, delays, st')
              else specPoll g jid cb opts (att + 1) 0 (delays @ [opt_pollIntervalMs opts]) st')
      | Inl err \<Rightarrow>
          (if int (cerrs + 1) < opt_maxConsecutiveErrors opts then
             specPoll g jid cb opts (att + 1) (cerrs + 1)
               (delays @ [opt_backoffMultiplier opts * opt_pollIntervalMs opts]) st
           else (FailedConnection (opt_maxConsecutiveErrors opts) err, att + 1, delays, st)))"
  by pat_completeness auto
termination
  by (relation "measures
         [\<lambda>(g, jid, cb, opts, att, cerrs, delays, st). nat (opt_maxAttempts opts - int att),
          \<lambda>(g, jid, cb, opts, att, cerrs, delays, st).
             nat (opt_maxConsecutiveErrors opts - int cerrs)]")
     auto

declare specPoll.simps [simp del]

text \<open>How the client renders an outcome of the specification as a settled promise.\<close>

fun promiseOf :: "'p PollOutcome \<Rightarrow> 'p promise" where
  "promiseOf (Succeeded snap) = Fulfilled snap"
| "promiseOf (FailedJob e) = Rejected (ErrorObj (orUndef e ''Job failed''))"
| "promiseOf (FailedConnection n err) =
     Rejected (ErrorObj (''Connection lost after '' @ showNumber n @ '' retries: ''
                 @ errMessage err ''Unknown error''))"
| "promiseOf TimedOut = Rejected (ErrorObj ''Job timed out after 30 minutes'')"

section \<open>Concrete snapshots and endpoints\<close>

definition snapshot :: "Lifecycle \<Rightarrow> string option \<Rightarrow> string option \<Rightarrow> unit JobStatus" where
  "snapshot lc stg detail =
     \<lparr>job_id = ''job-1'', status = lc, stage = stg, stage_detail = detail, progress = None,
      error = None, payload = ()\<rparr>"

definition alwaysFails :: "unit server" where
  "alwaysFails jid n = Inl (ErrorObj ''Network Error'')"

definition alwaysProcessing :: "unit server" where
  "alwaysProcessing jid n = Inr (snapshot JobProcessing (Some ''extracting'') None)"

text \<open>
  Two transport errors, then a running job, then the finished job, reported without a
  stage token.
\<close>

definition flakyThenDone :: "unit server" where
  "flakyThenDone jid n =
     (if n \<le> 2 then Inl (ErrorObj ''Network Error'')
      else if n = 3 then Inr (snapshot JobProcessing (Some ''extracting'') None)
      else Inr (snapshot JobCompleted None None))"

text \<open>A running job, then the job's failure.\<close>

definition runsThenFails :: "unit server" where
  "runsThenFails jid n =
     (if n \<le> 1 then Inr (snapshot JobProcessing (Some ''extracting'') None)
      else Inr (snapshot JobFailed (Some ''failed'') None))"

text \<open>A callback that throws on every snapshot.\<close>

definition throwingCallback :: "(unit, unit) callback" where
  "throwingCallback st c = (c, Some (ErrorObj ''render failed''))"

definition startOk :: "string \<Rightarrow> thrown + string" where
  "startOk arxivId = Inr ''job-1''"

text \<open>The step list while the second phase runs.\<close>

definition midSteps :: "ProcessingStep list" where
  "midSteps =
     [\<lparr>step_id = ''fetch'', title = ''Fetching Paper'', description = ''Paper downloaded'',
        step_status = Completed\<rparr>,
      \<lparr>step_id = ''extract'', title = ''Extracting'', description = ''Analyzing content...'',
        step_status = Active\<rparr>,
      \<lparr>step_id = ''segment'', title = ''Segmenting'', description = ''Breaking down...'',
        step_status = Pending\<rparr>,
      \<lparr>step_id = ''animate'', title = ''Animating'', description = ''Creating visuals...'',
        step_status = Pending\<rparr>]"

definition freshApp :: app where
  "freshApp = \<lparr>state = PageHome, appError = None, processingSteps = initialSteps\<rparr>"

section \<open>Evaluation of strings\<close>

lemma showNumber_10: "showNumber 10 = ''10''"
  by code_simp

lemma showNumber_0: "showNumber 0 = ''0''"
  by code_simp

lemma lower_literals:
  "toLowerCase ''extracting'' = ''extracting''"
  "toLowerCase ''fetching'' = ''fetching''"
  "toLowerCase ''segmenting'' = ''segmenting''"
  "toLowerCase ''failed'' = ''failed''"
  "toLowerCase ''Uploading'' = ''uploading''"
  by code_simp+

lemma not_includes_literal:
  "\<not> includesStr s ''fetch'' \<Longrightarrow> s \<noteq> ''fetching''"
  "\<not> includesStr s ''extract'' \<Longrightarrow> s \<noteq> ''extracting''"
  "\<not> includesStr s ''segment'' \<Longrightarrow> s \<noteq> ''segmenting''"
  "\<not> includesStr s ''animat'' \<Longrightarrow> s \<noteq> ''animating''"
  by auto

section \<open>Properties of the stage mapper\<close>

lemma stageOf_absent: "stage snap = None \<Longrightarrow> stageOf snap = []"
  by (simp add: stageOf_def orUndef_def)

text \<open>The branches of \<open>handleProgress\<close>, one case each, with the step the branch sets running.\<close>

lemma handleProgress_cases:
  obtains
    (toFetch) d where "stageTarget snap = Some ''fetch''"
      and "\<And>steps. handleProgress snap steps = updateStep ''fetch'' Active (Some d) steps"
  | (toExtract) d where "stageTarget snap = Some ''extract''"
      and "\<And>steps. handleProgress snap steps =
             updateStep ''extract'' Active (Some d)
               (updateStep ''fetch'' Completed (Some ''Paper downloaded'') steps)"
  | (toSegment) d where "stageTarget snap = Some ''segment''"
      and "\<And>steps. handleProgress snap steps =
             updateStep ''segment'' Active (Some d)
               (updateStep ''extract'' Completed (Some ''Introduction extracted'')
                 (updateStep ''fetch'' Completed None steps))"
  | (toAnimate) d where "stageTarget snap = Some ''animate''"
      and "\<And>steps. handleProgress snap steps =
             updateStep ''animate'' Active (Some d)
               (updateStep ''segment'' Completed (Some ''Segments created'')
                 (updateStep ''extract'' Completed None
                   (updateStep ''fetch'' Completed None steps)))"
  | (allCompleted) "stageOf snap = ''completed''" and "stageTarget snap = None"
      and "\<And>steps. handleProgress snap steps = map (\<lambda>s. s\<lparr>step_status := Completed\<rparr>) steps"
  | (activeFailed) "stageOf snap = ''failed''" and "stageTarget snap = None"
      and "\<And>steps. handleProgress snap steps =
             map (\<lambda>s. if step_status s = Active
                      then s\<lparr>step_status := Error,
                             description := orStr (orUndef (stage_detail snap) []) ''Failed''\<rparr>
                      else s) steps"
  | (noMatch) "stageTarget snap = None" and "\<And>steps. handleProgress snap steps = steps"
proof -
  let ?s = "stageOf snap"
  consider (a) "?s = ''queued''"
    | (b) "?s \<noteq> ''queued''" "includesStr ?s ''fetch''"
    | (c) "?s \<noteq> ''queued''" "\<not> includesStr ?s ''fetch''" "includesStr ?s ''extract''"
    | (d) "?s \<noteq> ''queued''" "\<not> includesStr ?s ''fetch''" "\<not> includesStr ?s ''extract''"
          "includesStr ?s ''segment''"
    | (e) "?s \<noteq> ''queued''" "\<not> includesStr ?s ''fetch''" "\<not> includesStr ?s ''extract''"
          "\<not> includesStr ?s ''segment''" "includesStr ?s ''animat''"
    | (f) "\<not> includesStr ?s ''fetch''" "\<not> includesStr ?s ''extract''"
          "\<not> includesStr ?s ''segment''" "\<not> includesStr ?s ''animat''" "?s = ''completed''"
    | (g) "\<not> includesStr ?s ''fetch''" "\<not> includesStr ?s ''extract''"
          "\<not> includesStr ?s ''segment''" "\<not> includesStr ?s ''animat''" "?s = ''failed''"
    | (h) "?s \<noteq> ''queued''" "\<not> includesStr ?s ''fetch''" "\<not> includesStr ?s ''extract''"
          "\<not> includesStr ?s ''segment''" "\<not> includesStr ?s ''animat''"
          "?s \<noteq> ''completed''" "?s \<noteq> ''failed''"
    by blast
  then show thesis
  proof cases
    case a
    show thesis
      by (rule toFetch [of "''Queued, waiting to start...''"])
         (simp_all add: a stageTarget_def handleProgress_def Let_def)
  next
    case b
    show thesis
      by (rule toFetch) (simp_all add: b stageTarget_def handleProgress_def Let_def)
  next
    case c
    show thesis
      by (rule toExtract)
         (simp_all add: c not_includes_literal stageTarget_def handleProgress_def Let_def)
  next
    case d
    show thesis
      by (rule toSegment)
         (simp_all add: d not_includes_literal stageTarget_def handleProgress_def Let_def)
  next
    case e
    show thesis
      by (rule toAnimate)
         (simp_all add: e not_includes_literal stageTarget_def handleProgress_def Let_def)
  next
    case f
    show thesis
      by (rule allCompleted) (simp_all add: f(5) stageTarget_def handleProgress_def Let_def)
  next
    case g
    show thesis
      by (rule activeFailed) (simp_all add: g(5) stageTarget_def handleProgress_def Let_def)
  next
    case h
    show thesis
      by (rule noMatch)
         (simp_all add: h not_includes_literal stageTarget_def handleProgress_def Let_def)
  qed
qed

lemma map_step_id_updateStep: "map step_id (updateStep i st d steps) = map step_id steps"
  by (simp add: updateStep_def)

lemma map_step_id_handleProgress: "map step_id (handleProgress snap steps) = map step_id steps"
  by (cases snap rule: handleProgress_cases) (simp_all add: map_step_id_updateStep)

lemma length_handleProgress: "length (handleProgress snap steps) = length steps"
  using arg_cong [OF map_step_id_handleProgress, of length snap steps] by simp

lemma step_id_handleProgress_nth:
  "i < length steps \<Longrightarrow> step_id (handleProgress snap steps ! i) = step_id (steps ! i)"
  using arg_cong [OF map_step_id_handleProgress, of "\<lambda>xs. xs ! i" snap steps]
  by (simp add: length_handleProgress)

lemma handleProgress_nth:
  assumes "i < length steps"
  shows "step_status (steps ! i) \<noteq> Pending \<Longrightarrow> step_status (handleProgress snap steps ! i) \<noteq> Pending"
    and "terminal (steps ! i) \<Longrightarrow> stageTarget snap \<noteq> Some (step_id (steps ! i))
         \<Longrightarrow> terminal (handleProgress snap steps ! i)"
    and "stageTarget snap = Some (step_id (steps ! i))
         \<Longrightarrow> step_status (handleProgress snap steps ! i) = Active"
  using assms
  by (cases snap rule: handleProgress_cases; simp add: updateStep_def terminal_def)+

lemma handleProgress_failed_nth:
  assumes "stageOf snap = ''failed''" and "i < length steps"
  shows "handleProgress snap steps ! i =
           (if step_status (steps ! i) = Active
            then (steps ! i)\<lparr>step_status := Error,
                              description := orUndef (stage_detail snap) ''Failed''\<rparr>
            else steps ! i)"
  using assms
  by (simp add: handleProgress_def Let_def orUndef_def orStr_def split: option.split)

lemma applySnapshots_Nil: "applySnapshots [] steps = steps"
  by (simp add: applySnapshots_def)

lemma applySnapshots_Cons:
  "applySnapshots (snap # snaps) steps = applySnapshots snaps (handleProgress snap steps)"
  by (simp add: applySnapshots_def)

lemma applySnapshots_inv:
  "i < length steps \<Longrightarrow>
   step_id (applySnapshots snaps steps ! i) = step_id (steps ! i)
   \<and> (step_status (steps ! i) \<noteq> Pending \<longrightarrow> step_status (applySnapshots snaps steps ! i) \<noteq> Pending)
   \<and> (terminal (steps ! i) \<longrightarrow> (\<forall>snap \<in> set snaps. stageTarget snap \<noteq> Some (step_id (steps ! i)))
        \<longrightarrow> terminal (applySnapshots snaps steps ! i))"
proof (induction snaps arbitrary: steps)
  case Nil
  then show ?case by (simp add: applySnapshots_Nil)
next
  case (Cons snap snaps)
  let ?s1 = "handleProgress snap steps"
  have len: "i < length ?s1" using Cons.prems by (simp add: length_handleProgress)
  note ih = Cons.IH [OF len]
  note h = handleProgress_nth [OF Cons.prems, of snap]
    step_id_handleProgress_nth [OF Cons.prems, of snap]
  show ?case
    unfolding applySnapshots_Cons using ih h by auto
qed

text \<open>The mapper on the concrete snapshots used below.\<close>

lemma stageOf_snapshot:
  "stageOf (snapshot lc None d) = []"
  "stageOf (snapshot lc (Some ''extracting'') d) = ''extracting''"
  "stageOf (snapshot lc (Some ''fetching'') d) = ''fetching''"
  "stageOf (snapshot lc (Some ''segmenting'') d) = ''segmenting''"
  "stageOf (snapshot lc (Some ''failed'') d) = ''failed''"
  "stageOf (snapshot lc (Some ''Uploading'') d) = ''uploading''"
  by (simp_all add: stageOf_def snapshot_def orUndef_def orStr_def lower_literals)

lemma stageTarget_snapshot:
  "stageTarget (snapshot lc None d) = None"
  "stageTarget (snapshot lc (Some ''extracting'') d) = Some ''extract''"
  "stageTarget (snapshot lc (Some ''fetching'') d) = Some ''fetch''"
  "stageTarget (snapshot lc (Some ''segmenting'') d) = Some ''segment''"
  "stageTarget (snapshot lc (Some ''failed'') d) = None"
  by (simp_all add: stageTarget_def stageOf_snapshot)

lemma snapshot_fields:
  "stage_detail (snapshot lc stg d) = d" "progress (snapshot lc stg d) = None"
  "status (snapshot lc stg d) = lc" "error (snapshot lc stg d) = None"
  by (simp_all add: snapshot_def)

lemma handleProgress_snapshot:
  "handleProgress (snapshot lc None None) steps = steps"
  "handleProgress (snapshot lc (Some ''Uploading'') None) steps = steps"
  "handleProgress (snapshot lc (Some ''extracting'') None) steps =
     updateStep ''extract'' Active (Some ''Analyzing content...'')
       (updateStep ''fetch'' Completed (Some ''Paper downloaded'') steps)"
  "handleProgress (snapshot lc (Some ''fetching'') None) steps =
     updateStep ''fetch'' Active (Some ''Downloading paper... 0%'') steps"
  "handleProgress (snapshot lc (Some ''failed'') None) steps =
     map (\<lambda>s. if step_status s = Active
              then s\<lparr>step_status := Error, description := ''Failed''\<rparr> else s) steps"
  by (simp_all add: handleProgress_def Let_def stageOf_snapshot snapshot_fields orStr_def
      orUndef_def showNumber_0)

text \<open>
  C8. The stage mapper is idempotent: for every step list and every snapshot, applying
  the snapshot twice in succession gives the step list that applying it once gives.
\<close>

theorem handleProgress_idempotent:
  "handleProgress snap (handleProgress snap steps) = handleProgress snap steps"
  by (cases snap rule: handleProgress_cases)
     (simp_all add: updateStep_def orUndef_def orStr_def)

text \<open>
  C10. A snapshot whose lowercased stage token is absent, or is none of \<open>queued\<close>,
  \<open>completed\<close>, \<open>failed\<close> and contains none of \<open>fetch\<close>, \<open>extract\<close>, \<open>segment\<close>,
  \<open>animat\<close>, leaves the step list exactly as it is, statuses and descriptions included.
  The lifecycle value plays no part: a snapshot without a stage field changes nothing
  whatever its lifecycle, \<open>queued\<close> included.
\<close>

theorem handleProgress_unmatched_stage_unchanged:
  "(stageOf snap \<noteq> ''queued'' \<and> \<not> includesStr (stageOf snap) ''fetch''
      \<and> \<not> includesStr (stageOf snap) ''extract'' \<and> \<not> includesStr (stageOf snap) ''segment''
      \<and> \<not> includesStr (stageOf snap) ''animat'' \<and> stageOf snap \<noteq> ''completed''
      \<and> stageOf snap \<noteq> ''failed''
      \<longrightarrow> handleProgress snap steps = steps)
   \<and> (stage snap = None \<longrightarrow> handleProgress snap steps = steps)"
  (is "(?A1 \<longrightarrow> ?B) \<and> (?A2 \<longrightarrow> ?B)")
proof -
  have 1: ?B if h: ?A1
    using h by (simp add: handleProgress_def Let_def not_includes_literal)
  have 2: ?B if h: ?A2
    using stageOf_absent [OF h] by (simp add: handleProgress_def Let_def)
  from 1 2 show ?thesis by blast
qed

theorem handleProgress_unmatched_stage_unchanged_witness:
  "stageOf (snapshot JobProcessing (Some ''Uploading'') None) = ''uploading''
   \<and> handleProgress (snapshot JobProcessing (Some ''Uploading'') None) midSteps = midSteps
   \<and> status (snapshot JobQueued None None) = JobQueued
   \<and> stage (snapshot JobQueued None None) = None
   \<and> handleProgress (snapshot JobQueued None None) initialSteps = initialSteps"
proof -
  have a: "stageOf (snapshot JobProcessing (Some ''Uploading'') None) = ''uploading''"
    by (simp add: stageOf_snapshot)
  have b: "stage (snapshot JobQueued None None) = None"
    "status (snapshot JobQueued None None) = JobQueued"
    by (simp_all add: snapshot_def)
  from handleProgress_unmatched_stage_unchanged
         [of "snapshot JobProcessing (Some ''Uploading'') None" midSteps]
  have 1: "handleProgress (snapshot JobProcessing (Some ''Uploading'') None) midSteps = midSteps"
    by (simp add: a)
  from handleProgress_unmatched_stage_unchanged [of "snapshot JobQueued None None" initialSteps] b
  have 2: "handleProgress (snapshot JobQueued None None) initialSteps = initialSteps"
    by blast
  from a b 1 2 show ?thesis by blast
qed

text \<open>
  C1 as the code has it. Once a step is completed or in error, no sequence of snapshots sets
  it back to pending, and its status stays one of completed and error as long as no
  snapshot's stage token points at that very step as the running one. There is no guard
  against the other case: a snapshot whose stage token points at the step sets it to active.
\<close>

theorem terminal_step_kept_unless_targeted:
  assumes "i < length steps" and "terminal (steps ! i)"
  shows "step_status (applySnapshots snaps steps ! i) \<noteq> Pending
       \<and> ((\<forall>snap \<in> set snaps. stageTarget snap \<noteq> Some (step_id (steps ! i)))
            \<longrightarrow> terminal (applySnapshots snaps steps ! i))
       \<and> (stageTarget snap = Some (step_id (steps ! i))
            \<longrightarrow> step_status (handleProgress snap steps ! i) = Active)"
  using applySnapshots_inv [OF assms(1), of snaps] handleProgress_nth(3) [OF assms(1), of snap]
    assms(2)
  by (auto simp: terminal_def)

theorem terminal_step_kept_unless_targeted_witness:
  "0 < length midSteps \<and> terminal (midSteps ! 0)
   \<and> step_status (applySnapshots [snapshot JobProcessing (Some ''segmenting'') None,
                                   snapshot JobFailed (Some ''failed'') None] midSteps ! 0)
       \<noteq> Pending
   \<and> terminal (applySnapshots [snapshot JobProcessing (Some ''segmenting'') None,
                                snapshot JobFailed (Some ''failed'') None] midSteps ! 0)
   \<and> stageTarget (snapshot JobProcessing (Some ''fetching'') None) = Some (step_id (midSteps ! 0))
   \<and> step_status (handleProgress (snapshot JobProcessing (Some ''fetching'') None) midSteps ! 0)
       = Active"
  using terminal_step_kept_unless_targeted
          [of 0 midSteps "[snapshot JobProcessing (Some ''segmenting'') None,
                           snapshot JobFailed (Some ''failed'') None]"
              "snapshot JobProcessing (Some ''fetching'') None"]
  by (simp add: midSteps_def terminal_def stageTarget_snapshot)

text \<open>
  The claim C1 as stated fails: after the snapshot \<open>extracting\<close> has completed the first
  step, the snapshot \<open>fetching\<close> sets that step back to active.
\<close>

theorem completed_step_set_back_to_active:
  "step_status (applySnapshots [snapshot JobProcessing (Some ''extracting'') None] initialSteps ! 0)
     = Completed
   \<and> step_status (applySnapshots [snapshot JobProcessing (Some ''extracting'') None,
                                   snapshot JobProcessing (Some ''fetching'') None] initialSteps ! 0)
     = Active"
  by (simp add: applySnapshots_Cons applySnapshots_Nil handleProgress_snapshot updateStep_def
      initialSteps_def)

section \<open>Properties of one run of the closure\<close>

text \<open>A run whose request is answered, in terms of what the callback does.\<close>

lemma pollBody_Inr:
  assumes "g (jobId a) (Suc (attempts s)) = Inr st"
  shows "pollBody g a s =
     (let s4 = s\<lparr>attempts := Suc (attempts s), consecutiveErrors := 0,
                  cbState := notify a st (cbState s),
                  trace := trace s @ Request (Suc (attempts s)) # progressEvents a st\<rparr>
      in case thrownBy a st (cbState s) of
           Some err \<Rightarrow> pollCatch a err s4
         | None \<Rightarrow>
             if status st = JobCompleted then (resolve st s4, None)
             else if status st = JobFailed then
               (reject (ErrorObj (orUndef (error st) ''Job failed'')) s4, None)
             else if int (attempts s4) \<ge> maxAttempts a then
               (reject (ErrorObj ''Job timed out after 30 minutes'') s4, None)
             else setTimeout (pollInterval a) s4)"
proof (cases "onProgress a")
  case None
  then show ?thesis
    using assms
    by (auto simp: pollBody_def notify_def thrownBy_def progressEvents_def Let_def
          resolve_def reject_def setTimeout_def pollCatch_def split: option.split
          intro!: session.equality)
next
  case (Some f)
  then show ?thesis
    using assms
    by (auto simp: pollBody_def notify_def thrownBy_def progressEvents_def Let_def
          resolve_def reject_def setTimeout_def pollCatch_def split: option.split
          intro!: session.equality)
qed

text \<open>The seven ways through \<open>pollBody\<close>, with every field of the session after the run.\<close>

lemma pollBody_cases:
  obtains
    (retry) err s' where "g (jobId a) (Suc (attempts s)) = Inl err"
      and "Suc (consecutiveErrors s) < maxConsecutiveErrors"
      and "pollBody g a s = (s', Some (pollInterval a * 2))"
      and "attempts s' = Suc (attempts s)"
      and "consecutiveErrors s' = Suc (consecutiveErrors s)"
      and "promise s' = promise s" and "cbState s' = cbState s"
      and "trace s' = trace s @ [Request (Suc (attempts s)), Timer (pollInterval a * 2)]"
  | (lost) err s' where "g (jobId a) (Suc (attempts s)) = Inl err"
      and "\<not> Suc (consecutiveErrors s) < maxConsecutiveErrors"
      and "pollBody g a s = (s', None)"
      and "attempts s' = Suc (attempts s)"
      and "consecutiveErrors s' = Suc (consecutiveErrors s)"
      and "promise s' = settle (Rejected (ErrorObj (lostMessage err))) (promise s)"
      and "cbState s' = cbState s"
      and "trace s' = trace s @ [Request (Suc (attempts s)), Reject (ErrorObj (lostMessage err))]"
  | (threw) st err s' where "g (jobId a) (Suc (attempts s)) = Inr st"
      and "thrownBy a st (cbState s) = Some err"
      and "pollBody g a s = (s', Some (pollInterval a * 2))"
      and "attempts s' = Suc (attempts s)" and "consecutiveErrors s' = Suc 0"
      and "promise s' = promise s"
      and "cbState s' = notify a st (cbState s)"
      and "trace s' = trace s @ Request (Suc (attempts s)) # progressEvents a st
                       @ [Timer (pollInterval a * 2)]"
  | (succeeded) st s' where "g (jobId a) (Suc (attempts s)) = Inr st"
      and "thrownBy a st (cbState s) = None"
      and "status st = JobCompleted"
      and "pollBody g a s = (s', None)"
      and "attempts s' = Suc (attempts s)" and "consecutiveErrors s' = 0"
      and "promise s' = settle (Fulfilled st) (promise s)"
      and "cbState s' = notify a st (cbState s)"
      and "trace s' = trace s @ Request (Suc (attempts s)) # progressEvents a st @ [Resolve st]"
  | (jobFailed) st s' where "g (jobId a) (Suc (attempts s)) = Inr st"
      and "thrownBy a st (cbState s) = None"
      and "status st = JobFailed"
      and "pollBody g a s = (s', None)"
      and "attempts s' = Suc (attempts s)" and "consecutiveErrors s' = 0"
      and "promise s' = settle (Rejected (ErrorObj (orUndef (error st) ''Job failed''))) (promise s)"
      and "cbState s' = notify a st (cbState s)"
      and "trace s' = trace s @ Request (Suc (attempts s)) # progressEvents a st
                       @ [Reject (ErrorObj (orUndef (error st) ''Job failed''))]"
  | (timedOut) st s' where "g (jobId a) (Suc (attempts s)) = Inr st"
      and "thrownBy a st (cbState s) = None"
      and "status st \<noteq> JobCompleted" and "status st \<noteq> JobFailed"
      and "maxAttempts a \<le> int (Suc (attempts s))"
      and "pollBody g a s = (s', None)"
      and "attempts s' = Suc (attempts s)" and "consecutiveErrors s' = 0"
      and "promise s' = settle (Rejected (ErrorObj ''Job timed out after 30 minutes'')) (promise s)"
      and "cbState s' = notify a st (cbState s)"
      and "trace s' = trace s @ Request (Suc (attempts s)) # progressEvents a st
                       @ [Reject (ErrorObj ''Job timed out after 30 minutes'')]"
  | (again) st s' where "g (jobId a) (Suc (attempts s)) = Inr st"
      and "thrownBy a st (cbState s) = None"
      and "status st \<noteq> JobCompleted" and "status st \<noteq> JobFailed"
      and "\<not> maxAttempts a \<le> int (Suc (attempts s))"
      and "pollBody g a s = (s', Some (pollInterval a))"
      and "attempts s' = Suc (attempts s)" and "consecutiveErrors s' = 0"
      and "promise s' = promise s"
      and "cbState s' = notify a st (cbState s)"
      and "trace s' = trace s @ Request (Suc (attempts s)) # progressEvents a st
                       @ [Timer (pollInterval a)]"
proof (cases "g (jobId a) (Suc (attempts s))")
  case (Inl err)
  show thesis
  proof (cases "Suc (consecutiveErrors s) < maxConsecutiveErrors")
    case True
    show thesis
      by (rule retry [where s' = "fst (pollBody g a s)", OF Inl True])
         (simp_all add: Inl True pollBody_def pollCatch_def setTimeout_def Let_def)
  next
    case False
    show thesis
      by (rule lost [where s' = "fst (pollBody g a s)", OF Inl False])
         (use False in \<open>simp_all add: Inl pollBody_def pollCatch_def reject_def settle_def
            lostMessage_def showNumber_10 maxConsecutiveErrors_def Let_def\<close>)
  qed
next
  case (Inr st)
  note body = pollBody_Inr [of g a s st, OF Inr]
  show thesis
  proof (cases "thrownBy a st (cbState s)")
    case (Some err)
    show thesis
      by (rule threw [where s' = "fst (pollBody g a s)", OF Inr Some])
         (simp_all add: body Some pollCatch_def setTimeout_def maxConsecutiveErrors_def Let_def)
  next
    case None
    consider (c) "status st = JobCompleted" | (f) "status st = JobFailed"
      | (t) "status st \<noteq> JobCompleted" "status st \<noteq> JobFailed"
            "maxAttempts a \<le> int (Suc (attempts s))"
      | (n) "status st \<noteq> JobCompleted" "status st \<noteq> JobFailed"
            "\<not> maxAttempts a \<le> int (Suc (attempts s))"
      by blast
    then show thesis
    proof cases
      case c
      show thesis
        by (rule succeeded [where s' = "fst (pollBody g a s)", OF Inr None c])
           (simp_all add: body None c resolve_def settle_def Let_def)
    next
      case f
      show thesis
        by (rule jobFailed [where s' = "fst (pollBody g a s)", OF Inr None f])
           (simp_all add: body None f reject_def settle_def Let_def)
    next
      case t
      show thesis
        by (rule timedOut [where s' = "fst (pollBody g a s)", OF Inr None t])
           (use t in \<open>simp_all add: body None reject_def settle_def Let_def\<close>)
    next
      case n
      show thesis
        by (rule again [where s' = "fst (pollBody g a s)", OF Inr None n])
           (use n in \<open>simp_all add: body None setTimeout_def Let_def\<close>)
    qed
  qed
qed

lemma poll_continue: "pollBody g a s = (s', Some ms) \<Longrightarrow> poll g a s = poll g a s'"
  by (subst poll.simps) simp

lemma poll_stop: "pollBody g a s = (s', None) \<Longrightarrow> poll g a s = Some s'"
  by (subst poll.simps) simp

lemma neverThrows_thrownBy: "neverThrows (onProgress a) \<Longrightarrow> thrownBy a st c = None"
  by (simp add: neverThrows_def thrownBy_def split: option.splits)

lemma neverThrows_returning: "neverThrows (Some (returning f))"
  by (simp add: neverThrows_def returning_def)

lemma neverThrows_None: "neverThrows None"
  by (simp add: neverThrows_def)

lemmas tick_eval = pollBody_def pollCatch_def setTimeout_def reject_def resolve_def
  maxConsecutiveErrors_def Let_def

lemma progressEvents_not_settle: "x \<in> set (progressEvents a st) \<Longrightarrow> \<not> isSettle x"
  by (auto simp: progressEvents_def split: option.splits)

lemma progressEvents_not_request: "Request n \<notin> set (progressEvents a st)"
  by (simp add: progressEvents_def split: option.split)

lemma delaysOf_append: "delaysOf (xs @ ys) = delaysOf xs @ delaysOf ys"
  by (induction xs rule: delaysOf.induct) simp_all

lemma delaysOf_progressEvents: "delaysOf (progressEvents a st) = []"
  by (simp add: progressEvents_def split: option.split)

lemma requestsOf_append: "requestsOf (xs @ ys) = requestsOf xs + requestsOf ys"
  by (simp add: requestsOf_def)

lemma requestsOf_progressEvents: "requestsOf (progressEvents a st) = 0"
  by (simp add: progressEvents_def requestsOf_def split: option.split)

lemma requestsOf_simps:
  "requestsOf [] = 0"
  "requestsOf (Request n # es) = Suc (requestsOf es)"
  "requestsOf (Timer ms # es) = requestsOf es"
  "requestsOf (Progress st # es) = requestsOf es"
  "requestsOf (Resolve st # es) = requestsOf es"
  "requestsOf (Reject err # es) = requestsOf es"
  by (simp_all add: requestsOf_def)

lemmas log_simps = delaysOf_append delaysOf_progressEvents requestsOf_append
  requestsOf_progressEvents requestsOf_simps

lemma lostMessage_not_timeout: "lostMessage err \<noteq> ''Job timed out after 30 minutes''"
  by (simp add: lostMessage_def)

section \<open>Properties of a session\<close>

text \<open>
  Induction over the runs of a session that returns: the property holds after the run that
  leaves no timer, and is carried back over every run that sets one.
\<close>

lemma poll_induct_aux:
  assumes "poll g a s = Some fin"
  shows "(\<forall>x. pollBody g a x = (fin, None) \<longrightarrow> P x) \<longrightarrow>
   (\<forall>x x' ms. pollBody g a x = (x', Some ms) \<longrightarrow> P x' \<longrightarrow> P x) \<longrightarrow> P s"
proof (rule poll.raw_induct [where P = "\<lambda>g a s fin.
          (\<forall>x. pollBody g a x = (fin, None) \<longrightarrow> P x) \<longrightarrow>
          (\<forall>x x' ms. pollBody g a x = (x', Some ms) \<longrightarrow> P x' \<longrightarrow> P x) \<longrightarrow> P s", OF _ assms])
  fix poll' :: "'a server \<Rightarrow> ('a, 'b) pollArgs \<Rightarrow> ('a, 'b) session \<Rightarrow> ('a, 'b) session option"
    and g1 a1 s1 fin1
  assume IH: "\<And>g a s fin. poll' g a s = Some fin \<Longrightarrow>
          (\<forall>x. pollBody g a x = (fin, None) \<longrightarrow> P x) \<longrightarrow>
          (\<forall>x x' ms. pollBody g a x = (x', Some ms) \<longrightarrow> P x' \<longrightarrow> P x) \<longrightarrow> P s"
    and hyp: "(case pollBody g1 a1 s1 of (s', None) \<Rightarrow> Some s'
               | (s', Some ms) \<Rightarrow> poll' g1 a1 s') = Some fin1"
  obtain u t where b: "pollBody g1 a1 s1 = (u, t)" by (cases "pollBody g1 a1 s1")
  show "(\<forall>x. pollBody g1 a1 x = (fin1, None) \<longrightarrow> P x) \<longrightarrow>
          (\<forall>x x' ms. pollBody g1 a1 x = (x', Some ms) \<longrightarrow> P x' \<longrightarrow> P x) \<longrightarrow> P s1"
  proof (cases t)
    case None
    with b hyp have "u = fin1" by simp
    with b None show ?thesis by simp
  next
    case (Some ms)
    with b hyp have "poll' g1 a1 u = Some fin1" by simp
    from IH [OF this] b Some show ?thesis by blast
  qed
qed

lemma poll_induct [consumes 1, case_names stop continue]:
  assumes "poll g a s = Some fin"
    and stop: "\<And>s. pollBody g a s = (fin, None) \<Longrightarrow> P s"
    and continue: "\<And>s s' ms. pollBody g a s = (s', Some ms) \<Longrightarrow> poll g a s' = Some fin \<Longrightarrow> P s'
                      \<Longrightarrow> P s"
  shows "P s"
proof -
  have "P s \<and> poll g a s = Some fin"
    using poll_induct_aux [OF assms(1), of "\<lambda>s. P s \<and> poll g a s = Some fin"]
    by (auto simp: poll_stop poll_continue intro: stop continue)
  then show ?thesis ..
qed

text \<open>
  A session whose callback never throws returns: every run that sets a timer uses up the
  attempt budget or lengthens the streak of failures.
\<close>

lemma poll_returns:
  assumes "neverThrows (onProgress a)"
  shows "\<exists>fin. poll g a s = Some fin"
proof (induction "(maxConsecutiveErrors + 1) * nat (maxAttempts a - int (attempts s))
          + (maxConsecutiveErrors - consecutiveErrors s)" arbitrary: s rule: less_induct)
  case less
  show ?case
  proof (cases rule: pollBody_cases [of g a s])
    case (retry err s')
    have "(maxConsecutiveErrors + 1) * nat (maxAttempts a - int (attempts s'))
          + (maxConsecutiveErrors - consecutiveErrors s')
        < (maxConsecutiveErrors + 1) * nat (maxAttempts a - int (attempts s))
          + (maxConsecutiveErrors - consecutiveErrors s)"
    proof -
      have "nat (maxAttempts a - int (attempts s')) \<le> nat (maxAttempts a - int (attempts s))"
        by (simp add: retry(4))
      then have "(maxConsecutiveErrors + 1) * nat (maxAttempts a - int (attempts s'))
          \<le> (maxConsecutiveErrors + 1) * nat (maxAttempts a - int (attempts s))"
        by (rule mult_le_mono2)
      moreover have "maxConsecutiveErrors - consecutiveErrors s'
          < maxConsecutiveErrors - consecutiveErrors s"
        using retry(2) by (simp add: retry(5))
      ultimately show ?thesis by linarith
    qed
    from less [OF this] show ?thesis by (simp add: poll_continue [OF retry(3)])
  next
    case (again st s')
    have "(maxConsecutiveErrors + 1) * nat (maxAttempts a - int (attempts s'))
          + (maxConsecutiveErrors - consecutiveErrors s')
        < (maxConsecutiveErrors + 1) * nat (maxAttempts a - int (attempts s))
          + (maxConsecutiveErrors - consecutiveErrors s)"
    proof -
      from again(5) have "nat (maxAttempts a - int (attempts s))
          = Suc (nat (maxAttempts a - int (attempts s')))"
        by (simp add: again(7))
      then show ?thesis by (simp add: again(8) maxConsecutiveErrors_def)
    qed
    from less [OF this] show ?thesis by (simp add: poll_continue [OF again(6)])
  next
    case (threw st err s')
    with assms show ?thesis by (simp add: neverThrows_thrownBy)
  next
    case (lost err s')
    then show ?thesis by (simp add: poll_stop)
  next
    case (succeeded st s')
    then show ?thesis by (simp add: poll_stop)
  next
    case (jobFailed st s')
    then show ?thesis by (simp add: poll_stop)
  next
    case (timedOut st s')
    then show ?thesis by (simp add: poll_stop)
  qed
qed

text \<open>The same induction, run by run, with the seven ways through a run.\<close>

lemma poll_run_induct [consumes 1,
    case_names retry lost threw succeeded jobFailed timedOut again]:
  assumes "poll g a s = Some fin"
    and retry: "\<And>s s' err. g (jobId a) (Suc (attempts s)) = Inl err \<Longrightarrow>
        Suc (consecutiveErrors s) < maxConsecutiveErrors \<Longrightarrow>
        attempts s' = Suc (attempts s) \<Longrightarrow> consecutiveErrors s' = Suc (consecutiveErrors s) \<Longrightarrow>
        promise s' = promise s \<Longrightarrow> cbState s' = cbState s \<Longrightarrow>
        trace s' = trace s @ [Request (Suc (attempts s)), Timer (pollInterval a * 2)] \<Longrightarrow>
        P s' \<Longrightarrow> P s"
    and lost: "\<And>s err. g (jobId a) (Suc (attempts s)) = Inl err \<Longrightarrow>
        \<not> Suc (consecutiveErrors s) < maxConsecutiveErrors \<Longrightarrow>
        attempts fin = Suc (attempts s) \<Longrightarrow> consecutiveErrors fin = Suc (consecutiveErrors s) \<Longrightarrow>
        promise fin = settle (Rejected (ErrorObj (lostMessage err))) (promise s) \<Longrightarrow>
        cbState fin = cbState s \<Longrightarrow>
        trace fin = trace s @ [Request (Suc (attempts s)), Reject (ErrorObj (lostMessage err))] \<Longrightarrow>
        P s"
    and threw: "\<And>s s' st err. g (jobId a) (Suc (attempts s)) = Inr st \<Longrightarrow>
        thrownBy a st (cbState s) = Some err \<Longrightarrow>
        attempts s' = Suc (attempts s) \<Longrightarrow> consecutiveErrors s' = Suc 0 \<Longrightarrow>
        promise s' = promise s \<Longrightarrow> cbState s' = notify a st (cbState s) \<Longrightarrow>
        trace s' = trace s @ Request (Suc (attempts s)) # progressEvents a st
                     @ [Timer (pollInterval a * 2)] \<Longrightarrow>
        P s' \<Longrightarrow> P s"
    and succeeded: "\<And>s st. g (jobId a) (Suc (attempts s)) = Inr st \<Longrightarrow>
        thrownBy a st (cbState s) = None \<Longrightarrow> status st = JobCompleted \<Longrightarrow>
        attempts fin = Suc (attempts s) \<Longrightarrow> consecutiveErrors fin = 0 \<Longrightarrow>
        promise fin = settle (Fulfilled st) (promise s) \<Longrightarrow>
        cbState fin = notify a st (cbState s) \<Longrightarrow>
        trace fin = trace s @ Request (Suc (attempts s)) # progressEvents a st @ [Resolve st] \<Longrightarrow>
        P s"
    and jobFailed: "\<And>s st. g (jobId a) (Suc (attempts s)) = Inr st \<Longrightarrow>
        thrownBy a st (cbState s) = None \<Longrightarrow> status st = JobFailed \<Longrightarrow>
        attempts fin = Suc (attempts s) \<Longrightarrow> consecutiveErrors fin = 0 \<Longrightarrow>
        promise fin = settle (Rejected (ErrorObj (orUndef (error st) ''Job failed''))) (promise s) \<Longrightarrow>
        cbState fin = notify a st (cbState s) \<Longrightarrow>
        trace fin = trace s @ Request (Suc (attempts s)) # progressEvents a st
                      @ [Reject (ErrorObj (orUndef (error st) ''Job failed''))] \<Longrightarrow>
        P s"
    and timedOut: "\<And>s st. g (jobId a) (Suc (attempts s)) = Inr st \<Longrightarrow>
        thrownBy a st (cbState s) = None \<Longrightarrow>
        status st \<noteq> JobCompleted \<Longrightarrow> status st \<noteq> JobFailed \<Longrightarrow>
        maxAttempts a \<le> int (Suc (attempts s)) \<Longrightarrow>
        attempts fin = Suc (attempts s) \<Longrightarrow> consecutiveErrors fin = 0 \<Longrightarrow>
        promise fin = settle (Rejected (ErrorObj ''Job timed out after 30 minutes'')) (promise s) \<Longrightarrow>
        cbState fin = notify a st (cbState s) \<Longrightarrow>
        trace fin = trace s @ Request (Suc (attempts s)) # progressEvents a st
                      @ [Reject (ErrorObj ''Job timed out after 30 minutes'')] \<Longrightarrow>
        P s"
    and again: "\<And>s s' st. g (jobId a) (Suc (attempts s)) = Inr st \<Longrightarrow>
        thrownBy a st (cbState s) = None \<Longrightarrow>
        status st \<noteq> JobCompleted \<Longrightarrow> status st \<noteq> JobFailed \<Longrightarrow>
        \<not> maxAttempts a \<le> int (Suc (attempts s)) \<Longrightarrow>
        attempts s' = Suc (attempts s) \<Longrightarrow> consecutiveErrors s' = 0 \<Longrightarrow>
        promise s' = promise s \<Longrightarrow> cbState s' = notify a st (cbState s) \<Longrightarrow>
        trace s' = trace s @ Request (Suc (attempts s)) # progressEvents a st
                     @ [Timer (pollInterval a)] \<Longrightarrow>
        P s' \<Longrightarrow> P s"
  shows "P s"
  using assms(1)
proof (induction rule: poll_induct)
  case (stop s)
  show ?case
  proof (cases rule: pollBody_cases [of g a s])
    case (lost err s')
    with stop have "s' = fin" by simp
    with lost show ?thesis by (intro assms(3) [of s err]) simp_all
  next
    case (succeeded st s')
    with stop have "s' = fin" by simp
    with succeeded show ?thesis by (intro assms(5) [of s st]) simp_all
  next
    case (jobFailed st s')
    with stop have "s' = fin" by simp
    with jobFailed show ?thesis by (intro assms(6) [of s st]) simp_all
  next
    case (timedOut st s')
    with stop have "s' = fin" by simp
    with timedOut show ?thesis by (intro assms(7) [of s st]) simp_all
  qed (use stop in simp_all)
next
  case (continue s s' ms)
  show ?case
  proof (cases rule: pollBody_cases [of g a s])
    case (retry err s'')
    with continue(1) have "s'' = s'" by simp
    with retry continue(3) show ?thesis by (intro assms(2) [of s err s']) simp_all
  next
    case (threw st err s'')
    with continue(1) have "s'' = s'" by simp
    with threw continue(3) show ?thesis by (intro assms(4) [of s st err s']) simp_all
  next
    case (again st s'')
    with continue(1) have "s'' = s'" by simp
    with again continue(3) show ?thesis by (intro assms(8) [of s st s']) simp_all
  qed (use continue(1) in simp_all)
qed

text \<open>
  A session that starts unsettled and returns has called \<^verbatim>\<open>resolve\<close> or \<^verbatim>\<open>reject\<close> once, as
  its last act.
\<close>

lemma poll_settles:
  "poll g a s = Some fin \<Longrightarrow> promise s = PromisePending \<Longrightarrow>
   \<exists>mid e. trace fin = trace s @ mid @ [e] \<and> isSettle e
     \<and> (\<forall>x \<in> set mid. \<not> isSettle x) \<and> promise fin = settledBy e"
proof (induction rule: poll_run_induct)
  case (retry s s' err)
  from retry.IH retry.hyps(5) retry.prems
  obtain mid e where "trace fin = trace s' @ mid @ [e]" "isSettle e"
    "\<forall>x \<in> set mid. \<not> isSettle x" "promise fin = settledBy e"
    by auto
  then show ?case
    unfolding retry.hyps(7)
    by (intro exI [of _ "[Request (Suc (attempts s)), Timer (pollInterval a * 2)] @ mid"]
        exI [of _ e]) simp
next
  case (threw s s' st err)
  from threw.IH threw.hyps(5) threw.prems
  obtain mid e where "trace fin = trace s' @ mid @ [e]" "isSettle e"
    "\<forall>x \<in> set mid. \<not> isSettle x" "promise fin = settledBy e"
    by auto
  then show ?case
    unfolding threw.hyps(7)
    by (intro exI [of _ "Request (Suc (attempts s)) # progressEvents a st
                           @ [Timer (pollInterval a * 2)] @ mid"] exI [of _ e])
       (auto dest: progressEvents_not_settle)
next
  case (again s s' st)
  from again.IH again.hyps(8) again.prems
  obtain mid e where "trace fin = trace s' @ mid @ [e]" "isSettle e"
    "\<forall>x \<in> set mid. \<not> isSettle x" "promise fin = settledBy e"
    by auto
  then show ?case
    unfolding again.hyps(10)
    by (intro exI [of _ "Request (Suc (attempts s)) # progressEvents a st
                           @ [Timer (pollInterval a)] @ mid"] exI [of _ e])
       (auto dest: progressEvents_not_settle)
next
  case (lost s err)
  show ?case
    unfolding lost.hyps(7) lost.hyps(5)
    by (intro exI [of _ "[Request (Suc (attempts s))]"]
        exI [of _ "Reject (ErrorObj (lostMessage err))"]) (simp add: settle_def lost.prems)
next
  case (succeeded s st)
  show ?case
    unfolding succeeded.hyps(8) succeeded.hyps(6)
    by (intro exI [of _ "Request (Suc (attempts s)) # progressEvents a st"]
        exI [of _ "Resolve st"])
       (auto simp: settle_def succeeded.prems dest: progressEvents_not_settle)
next
  case (jobFailed s st)
  show ?case
    unfolding jobFailed.hyps(8) jobFailed.hyps(6)
    by (intro exI [of _ "Request (Suc (attempts s)) # progressEvents a st"]
        exI [of _ "Reject (ErrorObj (orUndef (error st) ''Job failed''))"])
       (auto simp: settle_def jobFailed.prems dest: progressEvents_not_settle)
next
  case (timedOut s st)
  show ?case
    unfolding timedOut.hyps(10) timedOut.hyps(8)
    by (intro exI [of _ "Request (Suc (attempts s)) # progressEvents a st"]
        exI [of _ "Reject (ErrorObj ''Job timed out after 30 minutes'')"])
       (auto simp: settle_def timedOut.prems dest: progressEvents_not_settle)
qed

text \<open>
  When the callback never throws and no earlier request of the session was answered by a
  completed job, a request that is answered by one fulfils the promise with that snapshot.
\<close>

lemma poll_completed_observed:
  "poll g a s = Some fin \<Longrightarrow> neverThrows (onProgress a) \<Longrightarrow> promise s = PromisePending \<Longrightarrow>
   (\<forall>m st. Request m \<in> set (trace s) \<longrightarrow> g (jobId a) m = Inr st \<longrightarrow> status st \<noteq> JobCompleted) \<Longrightarrow>
   Request n \<in> set (trace fin) \<Longrightarrow> g (jobId a) n = Inr snap \<Longrightarrow>
   status snap = JobCompleted \<Longrightarrow> promise fin = Fulfilled snap"
proof (induction rule: poll_run_induct)
  case (retry s s' err)
  have "\<forall>m st. Request m \<in> set (trace s') \<longrightarrow> g (jobId a) m = Inr st
                  \<longrightarrow> status st \<noteq> JobCompleted"
    using retry.prems(3) retry.hyps(1) by (auto simp: retry.hyps(7))
  with retry.IH retry.prems show ?case by (simp add: retry.hyps(5))
next
  case (threw s s' st err)
  then show ?case by (simp add: neverThrows_thrownBy)
next
  case (again s s' st)
  have "\<forall>m st. Request m \<in> set (trace s') \<longrightarrow> g (jobId a) m = Inr st
                  \<longrightarrow> status st \<noteq> JobCompleted"
    using again.prems(3) again.hyps(1,3) by (auto simp: again.hyps(10) progressEvents_not_request)
  with again.IH again.prems show ?case by (simp add: again.hyps(8))
next
  case (lost s err)
  from lost.prems(4) have "Request n \<in> set (trace s) \<or> n = Suc (attempts s)"
    by (auto simp: lost.hyps(7))
  then show ?case using lost.prems lost.hyps(1) by auto
next
  case (succeeded s st)
  from succeeded.prems(4) have "Request n \<in> set (trace s) \<or> n = Suc (attempts s)"
    by (auto simp: succeeded.hyps(8) progressEvents_not_request)
  then show ?case
    using succeeded.prems succeeded.hyps(1) by (auto simp: succeeded.hyps(6) settle_def)
next
  case (jobFailed s st)
  from jobFailed.prems(4) have "Request n \<in> set (trace s) \<or> n = Suc (attempts s)"
    by (auto simp: jobFailed.hyps(8) progressEvents_not_request)
  then show ?case using jobFailed.prems jobFailed.hyps(1,3) by auto
next
  case (timedOut s st)
  from timedOut.prems(4) have "Request n \<in> set (trace s) \<or> n = Suc (attempts s)"
    by (auto simp: timedOut.hyps(10) progressEvents_not_request)
  then show ?case using timedOut.prems timedOut.hyps(1,3) by auto
qed

text \<open>With the stage mapper as callback, a session keeps the steps and their order.\<close>

lemma poll_cbState_ids:
  "poll g a s = Some fin \<Longrightarrow> onProgress a = Some (returning handleProgress) \<Longrightarrow>
   map step_id (cbState fin) = map step_id (cbState s)"
proof (induction rule: poll_run_induct)
  case (retry s s' err)
  then show ?case by simp
next
  case (threw s s' st err)
  then show ?case by (simp add: notify_def returning_def map_step_id_handleProgress)
next
  case (again s s' st)
  then show ?case by (simp add: notify_def returning_def map_step_id_handleProgress)
next
  case (lost s err)
  then show ?case by simp
next
  case (succeeded s st)
  then show ?case by (simp add: notify_def returning_def map_step_id_handleProgress)
next
  case (jobFailed s st)
  then show ?case by (simp add: notify_def returning_def map_step_id_handleProgress)
next
  case (timedOut s st)
  then show ?case by (simp add: notify_def returning_def map_step_id_handleProgress)
qed

text \<open>A session rejected as timed out had its last request answered.\<close>

lemma poll_timeout_after_success:
  "poll g a s = Some fin \<Longrightarrow> promise s = PromisePending \<Longrightarrow>
   promise fin = Rejected (ErrorObj ''Job timed out after 30 minutes'') \<Longrightarrow>
   \<exists>st. g (jobId a) (attempts fin) = Inr st"
proof (induction rule: poll_run_induct)
  case (lost s err)
  then show ?case using lostMessage_not_timeout [of err] by (auto simp: settle_def)
qed simp_all

text \<open>
  When the endpoint answers every request and the callback throws on every snapshot, every
  run ends in the \<^verbatim>\<open>catch\<close> block with a streak of 1 and sets a timer: the session never
  returns.
\<close>

lemma poll_never_returns:
  assumes "\<forall>n. \<exists>st. g (jobId a) n = Inr st" and "\<forall>st c. thrownBy a st c \<noteq> None"
  shows "poll g a s = None"
proof (rule ccontr)
  assume "poll g a s \<noteq> None"
  then obtain fin where "poll g a s = Some fin" by auto
  then show False
  proof (induction rule: poll_run_induct)
    case (retry s s' err)
    with assms(1) [rule_format, of "Suc (attempts s)"] show ?case by simp
  next
    case (lost s err)
    with assms(1) [rule_format, of "Suc (attempts s)"] show ?case by simp
  qed (use assms(2) in simp_all)
qed



lemma flaky_trace:
  "map_option trace (pollJobUntilComplete flakyThenDone jid (Some (returning f)) (Some 3000) None c0) =
     Some [Request 1, Timer 6000, Request 2, Timer 6000,
      Request 3, Progress (snapshot JobProcessing (Some ''extracting'') None), Timer 3000,
      Request 4, Progress (snapshot JobCompleted None None),
      Resolve (snapshot JobCompleted None None)]"
  unfolding pollJobUntilComplete_def pollArgsOf_def pollStart_def
  apply (subst poll.simps, simp add: tick_eval flakyThenDone_def)
  apply (subst poll.simps, simp add: tick_eval flakyThenDone_def)
  apply (subst poll.simps, simp add: tick_eval flakyThenDone_def snapshot_def returning_def)
  apply (subst poll.simps, simp add: tick_eval flakyThenDone_def snapshot_def returning_def)
  done

text \<open>An endpoint that always answers and a callback that always throws.\<close>

lemma throwing_session_never_returns:
  "pollJobUntilComplete alwaysProcessing jid (Some throwingCallback) pollIntervalArg
     maxAttemptsArg () = None"
  unfolding pollJobUntilComplete_def
  by (rule poll_never_returns)
     (simp_all add: alwaysProcessing_def thrownBy_def throwingCallback_def pollArgsOf_def)




text \<open>
  The session that \<^verbatim>\<open>handleSelectPaper\<close> runs has \<^verbatim>\<open>handleProgress\<close> as its callback, which
  returns normally: the session returns, settled, and so does \<^verbatim>\<open>handleSelectPaper\<close>.
\<close>

lemma selectSession_returns: "\<exists>fin. selectSession g jid ap = Some fin"
  unfolding selectSession_def pollJobUntilComplete_def
  by (rule poll_returns) (simp add: pollArgsOf_def neverThrows_returning)

lemma selectSession_ids:
  "selectSession g jid ap = Some fin \<Longrightarrow>
   map step_id (cbState fin) = map step_id (processingSteps ap)"
  unfolding selectSession_def pollJobUntilComplete_def
  by (drule poll_cbState_ids)
     (simp_all add: pollArgsOf_def pollStart_def map_step_id_updateStep resetSteps_def comp_def)

lemma selectSession_settled:
  "selectSession g jid ap = Some fin \<Longrightarrow> promise fin \<noteq> PromisePending"
  unfolding selectSession_def pollJobUntilComplete_def
proof (drule poll_settles)
  show "promise (pollStart c0 :: ('a, 'b) session) = PromisePending" for c0 :: 'b
    by (simp add: pollStart_def)
next
  fix c0 :: "ProcessingStep list"
  assume "\<exists>mid e. trace fin = trace (pollStart c0 :: ('a, ProcessingStep list) session) @ mid @ [e]
      \<and> isSettle e \<and> (\<forall>x \<in> set mid. \<not> isSettle x) \<and> promise fin = settledBy e"
  then obtain e where "isSettle e" "promise fin = settledBy e" by blast
  then show "promise fin \<noteq> PromisePending" by (cases e) simp_all
qed

lemma handleSelectPaper_started:
  "startAsyncProcess arxivId = Inr jid \<Longrightarrow> selectSession g jid ap = Some fin \<Longrightarrow>
   handleSelectPaper startAsyncProcess g arxivId ap =
     (let ap4 = ap\<lparr>state := PageProcessing, appError := None, processingSteps := cbState fin\<rparr>
      in case promise fin of
           Fulfilled finalStatus \<Rightarrow> Some (selectDone ap4)
         | Rejected err \<Rightarrow> Some (selectCatch err ap4)
         | PromisePending \<Rightarrow> None)"
  by (cases "promise fin") (simp_all add: handleSelectPaper_def selectSession_def Let_def)

lemma handleSelectPaper_returns: "\<exists>ap'. handleSelectPaper startAsyncProcess g arxivId ap = Some ap'"
proof (cases "startAsyncProcess arxivId")
  case (Inl err)
  then show ?thesis by (simp add: handleSelectPaper_def Let_def)
next
  case (Inr jid)
  obtain fin where fin: "selectSession g jid ap = Some fin"
    using selectSession_returns [of g jid ap] by blast
  from selectSession_settled [OF fin] show ?thesis
    by (cases "promise fin")
       (simp_all add: handleSelectPaper_started
          [where startAsyncProcess = startAsyncProcess and arxivId = arxivId, OF Inr fin] Let_def)
qed

lemma map_const_on_set: "\<forall>x \<in> set xs. f x = c \<Longrightarrow> map f xs = replicate (length xs) c"
  by (induction xs) simp_all

text \<open>
  C2. The session that \<^verbatim>\<open>handleSelectPaper\<close> runs returns, and whenever one of its requests
  is answered by a snapshot with lifecycle completed, at whatever request and whatever the
  steps were before, the session's promise is fulfilled with that snapshot, and
  \<^verbatim>\<open>handleSelectPaper\<close> ends with the same steps in the same order, every one of them
  completed, on the completed page.
\<close>

theorem completed_snapshot_completes_all_steps:
  assumes "startAsyncProcess arxivId = Inr jid"
    and "g jid n = Inr snap" and "status snap = JobCompleted"
  shows "\<exists>fin. selectSession g jid ap = Some fin
       \<and> (Request n \<in> set (trace fin) \<longrightarrow>
            promise fin = Fulfilled snap
          \<and> (\<exists>ap'. handleSelectPaper startAsyncProcess g arxivId ap = Some ap'
               \<and> map step_id (processingSteps ap') = map step_id (processingSteps ap)
               \<and> (\<forall>s \<in> set (processingSteps ap'). step_status s = Completed)
               \<and> state ap' = PageCompleted))"
proof -
  obtain fin where fin: "selectSession g jid ap = Some fin"
    using selectSession_returns [of g jid ap] by blast
  have "promise fin = Fulfilled snap
      \<and> (\<exists>ap'. handleSelectPaper startAsyncProcess g arxivId ap = Some ap'
               \<and> map step_id (processingSteps ap') = map step_id (processingSteps ap)
               \<and> (\<forall>s \<in> set (processingSteps ap'). step_status s = Completed)
               \<and> state ap' = PageCompleted)"
    if obs: "Request n \<in> set (trace fin)"
  proof -
    have p: "promise fin = Fulfilled snap"
      using fin unfolding selectSession_def pollJobUntilComplete_def
      by (rule poll_completed_observed)
         (use obs assms(2,3) in \<open>simp_all add: pollArgsOf_def pollStart_def neverThrows_returning\<close>)
    show ?thesis
      using selectSession_ids [OF fin]
      by (simp add: p selectDone_def comp_def
          handleSelectPaper_started
            [where startAsyncProcess = startAsyncProcess and arxivId = arxivId, OF assms(1) fin])
  qed
  with fin show ?thesis by blast
qed

theorem completed_snapshot_completes_all_steps_witness:
  "startOk ''2401.00001'' = Inr ''job-1''
   \<and> flakyThenDone ''job-1'' 4 = Inr (snapshot JobCompleted None None)
   \<and> status (snapshot JobCompleted None None) = JobCompleted
   \<and> map_option (\<lambda>fin. Request 4 \<in> set (trace fin))
        (selectSession flakyThenDone ''job-1'' freshApp) = Some True
   \<and> map_option promise (selectSession flakyThenDone ''job-1'' freshApp)
       = Some (Fulfilled (snapshot JobCompleted None None))
   \<and> map_option (\<lambda>ap'. map step_id (processingSteps ap'))
        (handleSelectPaper startOk flakyThenDone ''2401.00001'' freshApp)
       = Some [''fetch'', ''extract'', ''segment'', ''animate'']
   \<and> map_option (\<lambda>ap'. map step_status (processingSteps ap'))
        (handleSelectPaper startOk flakyThenDone ''2401.00001'' freshApp)
       = Some [Completed, Completed, Completed, Completed]"
proof -
  have h: "startOk ''2401.00001'' = Inr ''job-1''"
    "flakyThenDone ''job-1'' 4 = Inr (snapshot JobCompleted None None)"
    "status (snapshot JobCompleted None None) = JobCompleted"
    by (simp_all add: startOk_def flakyThenDone_def snapshot_def)
  from completed_snapshot_completes_all_steps
         [of startOk "''2401.00001''" "''job-1''" flakyThenDone 4
             "snapshot JobCompleted None None" freshApp, OF h]
  obtain fin where fin: "selectSession flakyThenDone ''job-1'' freshApp = Some fin"
    and imp: "Request 4 \<in> set (trace fin) \<longrightarrow>
            promise fin = Fulfilled (snapshot JobCompleted None None)
          \<and> (\<exists>ap'. handleSelectPaper startOk flakyThenDone ''2401.00001'' freshApp = Some ap'
               \<and> map step_id (processingSteps ap') = map step_id (processingSteps freshApp)
               \<and> (\<forall>s \<in> set (processingSteps ap'). step_status s = Completed)
               \<and> state ap' = PageCompleted)"
    by blast
  have obs: "Request 4 \<in> set (trace fin)"
    using flaky_trace [of "''job-1''" handleProgress
            "updateStep ''fetch'' Active (Some ''Job started, fetching paper...'')
               (updateStep ''fetch'' Active (Some ''Starting job...'')
                 (resetSteps (processingSteps freshApp)))"] fin
    by (simp add: selectSession_def)
  with imp obtain ap' where p: "promise fin = Fulfilled (snapshot JobCompleted None None)"
    and ap: "handleSelectPaper startOk flakyThenDone ''2401.00001'' freshApp = Some ap'"
    and ids: "map step_id (processingSteps ap') = map step_id (processingSteps freshApp)"
    and all: "\<forall>s \<in> set (processingSteps ap'). step_status s = Completed"
    by blast
  from ids have ids': "map step_id (processingSteps ap') = [''fetch'', ''extract'', ''segment'', ''animate'']"
    by (simp add: freshApp_def initialSteps_def)
  then have "length (processingSteps ap') = 4"
    using length_map [of step_id "processingSteps ap'"] by simp
  moreover from all have "map step_status (processingSteps ap')
      = replicate (length (processingSteps ap')) Completed"
    by (intro map_const_on_set) blast
  ultimately have st: "map step_status (processingSteps ap')
      = [Completed, Completed, Completed, Completed]"
    by (simp add: numeral_eq_Suc)
  from h fin obs p ap ids' st show ?thesis by simp
qed

text \<open>
  A streak of transport failures that reaches the limit: the session rejects at the last
  of them, having waited twice the interval after each earlier one. The callback is not
  called.
\<close>

lemma poll_failure_streak:
  "promise s = PromisePending \<Longrightarrow> consecutiveErrors s + Suc n = maxConsecutiveErrors \<Longrightarrow>
   (\<forall>k. 1 \<le> k \<and> k \<le> Suc n \<longrightarrow> (\<exists>e. g (jobId a) (attempts s + k) = Inl e)) \<Longrightarrow>
   g (jobId a) (attempts s + Suc n) = Inl err \<Longrightarrow>
   \<exists>fin. poll g a s = Some fin
     \<and> promise fin = Rejected (ErrorObj (lostMessage err))
     \<and> attempts fin = attempts s + Suc n
     \<and> cbState fin = cbState s
     \<and> delaysOf (trace fin) = delaysOf (trace s) @ replicate n (pollInterval a * 2)
     \<and> requestsOf (trace fin) = requestsOf (trace s) + Suc n"
proof (induction n arbitrary: s)
  case 0
  from "0.prems"(3) [rule_format, of 1]
  obtain e where e: "g (jobId a) (Suc (attempts s)) = Inl e" by auto
  with "0.prems"(4) have ee: "e = err" by simp
  show ?case
  proof (cases rule: pollBody_cases [of g a s])
    case (lost err' s')
    with e ee have "err' = err" by simp
    then show ?thesis
      using lost "0.prems"(1) by (simp add: poll_stop [OF lost(3)] settle_def log_simps)
  qed (use e "0.prems"(2) in simp_all)
next
  case (Suc n)
  from Suc.prems(3) [rule_format, of 1]
  obtain e where e: "g (jobId a) (Suc (attempts s)) = Inl e" by auto
  show ?case
  proof (cases rule: pollBody_cases [of g a s])
    case (retry err' s')
    have 1: "promise s' = PromisePending" using retry(6) Suc.prems(1) by simp
    have 2: "consecutiveErrors s' + Suc n = maxConsecutiveErrors"
      using retry(5) Suc.prems(2) by simp
    have 3: "\<forall>k. 1 \<le> k \<and> k \<le> Suc n \<longrightarrow> (\<exists>e. g (jobId a) (attempts s' + k) = Inl e)"
    proof (intro allI impI)
      fix k assume "1 \<le> k \<and> k \<le> Suc n"
      then have "1 \<le> Suc k \<and> Suc k \<le> Suc (Suc n)" by simp
      with Suc.prems(3) [rule_format, of "Suc k"]
      have "\<exists>e. g (jobId a) (attempts s + Suc k) = Inl e" by simp
      then show "\<exists>e. g (jobId a) (attempts s' + k) = Inl e" by (simp add: retry(4))
    qed
    have 4: "g (jobId a) (attempts s' + Suc n) = Inl err"
      using Suc.prems(4) by (simp add: retry(4))
    from Suc.IH [OF 1 2 3 4] show ?thesis
      by (auto simp: poll_continue [OF retry(3)] retry log_simps replicate_append_same)
  next
    case (lost err' s')
    with Suc.prems(2) show ?thesis by simp
  qed (use e in simp_all)
qed

text \<open>
  Answers that are all successful and not final, up to the attempt budget, with a callback
  that never throws: the session rejects as timed out at the request that exhausts the
  budget.
\<close>

lemma poll_budget_exhausted:
  "neverThrows (onProgress a) \<Longrightarrow>
   promise s = PromisePending \<Longrightarrow> int (attempts s + Suc n) = maxAttempts a \<Longrightarrow>
   (\<forall>k. 1 \<le> k \<and> k \<le> Suc n \<longrightarrow>
      (\<exists>st. g (jobId a) (attempts s + k) = Inr st \<and> status st \<noteq> JobCompleted
            \<and> status st \<noteq> JobFailed)) \<Longrightarrow>
   \<exists>fin. poll g a s = Some fin
     \<and> promise fin = Rejected (ErrorObj ''Job timed out after 30 minutes'')
     \<and> attempts fin = attempts s + Suc n
     \<and> requestsOf (trace fin) = requestsOf (trace s) + Suc n
     \<and> delaysOf (trace fin) = delaysOf (trace s) @ replicate n (pollInterval a)"
proof (induction n arbitrary: s)
  case 0
  note nt = neverThrows_thrownBy [OF "0.prems"(1)]
  from "0.prems"(4) [rule_format, of 1]
  obtain st where st: "g (jobId a) (Suc (attempts s)) = Inr st"
    "status st \<noteq> JobCompleted" "status st \<noteq> JobFailed" by auto
  show ?case
  proof (cases rule: pollBody_cases [of g a s])
    case (timedOut st' s')
    then show ?thesis
      using "0.prems"(2) by (simp add: poll_stop [OF timedOut(6)] settle_def log_simps)
  next
    case (again st' s')
    with "0.prems"(3) show ?thesis by simp
  qed (use st nt in simp_all)
next
  case (Suc n)
  note nt = neverThrows_thrownBy [OF Suc.prems(1)]
  from Suc.prems(4) [rule_format, of 1]
  obtain st where st: "g (jobId a) (Suc (attempts s)) = Inr st"
    "status st \<noteq> JobCompleted" "status st \<noteq> JobFailed" by auto
  show ?case
  proof (cases rule: pollBody_cases [of g a s])
    case (again st' s')
    have 1: "promise s' = PromisePending" using again(9) Suc.prems(2) by simp
    have 2: "int (attempts s' + Suc n) = maxAttempts a"
      using again(7) Suc.prems(3) by simp
    have 3: "\<forall>k. 1 \<le> k \<and> k \<le> Suc n \<longrightarrow>
               (\<exists>st. g (jobId a) (attempts s' + k) = Inr st \<and> status st \<noteq> JobCompleted
                     \<and> status st \<noteq> JobFailed)"
    proof (intro allI impI)
      fix k assume "1 \<le> k \<and> k \<le> Suc n"
      then have "1 \<le> Suc k \<and> Suc k \<le> Suc (Suc n)" by simp
      with Suc.prems(4) [rule_format, of "Suc k"]
      have "\<exists>st. g (jobId a) (attempts s + Suc k) = Inr st
          \<and> status st \<noteq> JobCompleted \<and> status st \<noteq> JobFailed" by simp
      then show "\<exists>st. g (jobId a) (attempts s' + k) = Inr st \<and> status st \<noteq> JobCompleted
          \<and> status st \<noteq> JobFailed" by (simp add: again(7))
    qed
    from Suc.IH [OF Suc.prems(1) 1 2 3] show ?thesis
      by (auto simp: poll_continue [OF again(6)] again log_simps replicate_append_same)
  next
    case (timedOut st' s')
    with Suc.prems(3) show ?thesis by simp
  qed (use st nt in simp_all)
qed

text \<open>
  C4 as the code has it. With \<^verbatim>\<open>maxAttempts = 3\<close>, an endpoint whose every answer is a
  successful snapshot with lifecycle processing, and a progress callback that returns
  normally on every snapshot (or no callback), the session returns rejected with the
  time-out error, after exactly three status requests.
\<close>

theorem three_attempts_always_processing_times_out:
  assumes "\<forall>n. \<exists>st. g jid n = Inr st \<and> status st = JobProcessing"
    and "neverThrows cb"
  shows "\<exists>fin. pollJobUntilComplete g jid cb pollIntervalArg (Some 3) c0 = Some fin
       \<and> promise fin = Rejected (ErrorObj ''Job timed out after 30 minutes'')
       \<and> requestsOf (trace fin) = 3
       \<and> attempts fin = 3"
proof -
  let ?a = "pollArgsOf jid cb pollIntervalArg (Some 3)"
  let ?s = "pollStart c0 :: ('a, 'b) session"
  have 3: "\<forall>k. 1 \<le> k \<and> k \<le> Suc 2 \<longrightarrow>
             (\<exists>st. g (jobId ?a) (attempts ?s + k) = Inr st \<and> status st \<noteq> JobCompleted
                   \<and> status st \<noteq> JobFailed)"
  proof (intro allI impI)
    fix k
    from assms(1) obtain st where "g jid k = Inr st" "status st = JobProcessing" by blast
    then show "\<exists>st. g (jobId ?a) (attempts ?s + k) = Inr st \<and> status st \<noteq> JobCompleted
                   \<and> status st \<noteq> JobFailed" by (simp add: pollArgsOf_def pollStart_def)
  qed
  have "neverThrows (onProgress ?a)" "promise ?s = PromisePending"
    "int (attempts ?s + Suc 2) = maxAttempts ?a"
    using assms(2) by (simp_all add: pollArgsOf_def pollStart_def)
  from poll_budget_exhausted [of ?a ?s 2 g, OF this 3] show ?thesis
    by (auto simp: pollJobUntilComplete_def pollStart_def requestsOf_def)
qed

theorem three_attempts_always_processing_times_out_witness:
  "(\<forall>n. \<exists>st. alwaysProcessing ''job-1'' n = Inr st \<and> status st = JobProcessing)
   \<and> neverThrows (None :: (unit, unit) callback option)
   \<and> map_option promise (pollJobUntilComplete alwaysProcessing ''job-1'' None None (Some 3) ())
       = Some (Rejected (ErrorObj ''Job timed out after 30 minutes''))
   \<and> map_option (\<lambda>fin. requestsOf (trace fin))
        (pollJobUntilComplete alwaysProcessing ''job-1'' None None (Some 3) ()) = Some 3"
proof -
  have h: "\<forall>n. \<exists>st. alwaysProcessing ''job-1'' n = Inr st \<and> status st = JobProcessing"
    "neverThrows (None :: (unit, unit) callback option)"
    by (simp_all add: alwaysProcessing_def snapshot_def neverThrows_None)
  from three_attempts_always_processing_times_out
         [of alwaysProcessing "''job-1''" None None "()", OF h]
  have "map_option promise (pollJobUntilComplete alwaysProcessing ''job-1'' None None (Some 3) ())
       = Some (Rejected (ErrorObj ''Job timed out after 30 minutes''))
   \<and> map_option (\<lambda>fin. requestsOf (trace fin))
        (pollJobUntilComplete alwaysProcessing ''job-1'' None None (Some 3) ()) = Some 3"
    by auto
  with h show ?thesis by blast
qed

text \<open>
  The claim C4 as stated fails. The test of \<^verbatim>\<open>attempts\<close> against \<^verbatim>\<open>maxAttempts\<close> comes after
  the call of the callback inside the \<^verbatim>\<open>try\<close> block: when the callback throws, the run goes
  to the \<^verbatim>\<open>catch\<close> block, which does not make that test. With \<^verbatim>\<open>maxAttempts = 3\<close>, the
  endpoint that always answers processing and a callback that always throws, the session
  never returns, and after four runs it has made four requests and its promise is pending.
\<close>

theorem throwing_callback_goes_past_three_attempts:
  "pollJobUntilComplete alwaysProcessing ''job-1'' (Some throwingCallback) None (Some 3) () = None
   \<and> pollRuns 4 alwaysProcessing (pollArgsOf ''job-1'' (Some throwingCallback) None (Some 3))
       (pollStart ()) =
     \<lparr>attempts = 4, consecutiveErrors = 1, promise = PromisePending, cbState = (),
      trace = [Request 1, Progress (snapshot JobProcessing (Some ''extracting'') None), Timer 6000,
               Request 2, Progress (snapshot JobProcessing (Some ''extracting'') None), Timer 6000,
               Request 3, Progress (snapshot JobProcessing (Some ''extracting'') None), Timer 6000,
               Request 4, Progress (snapshot JobProcessing (Some ''extracting'') None),
               Timer 6000]\<rparr>"
  by (simp add: throwing_session_never_returns eval_nat_numeral tick_eval alwaysProcessing_def
      throwingCallback_def pollArgsOf_def pollStart_def)

text \<open>
  Failures of the first two requests and a running job at the third, reported to a
  callback that returns normally: the third run finds a streak of 2, clears it and goes on
  after the plain interval.
\<close>

lemma poll_two_failures_then_success:
  assumes "g (jobId a) 1 = Inl e1" "g (jobId a) 2 = Inl e2" "g (jobId a) 3 = Inr snap"
    "thrownBy a snap (cbState s) = None"
    "status snap \<noteq> JobCompleted" "status snap \<noteq> JobFailed" "3 < maxAttempts a"
    "attempts s = 0" "consecutiveErrors s = 0"
  shows "consecutiveErrors (fst (pollBody g a (fst (pollBody g a s)))) = 2
    \<and> consecutiveErrors (fst (pollBody g a (fst (pollBody g a (fst (pollBody g a s)))))) = 0
    \<and> snd (pollBody g a (fst (pollBody g a (fst (pollBody g a s))))) = Some (pollInterval a)
    \<and> promise (fst (pollBody g a (fst (pollBody g a (fst (pollBody g a s)))))) = promise s"
proof -
  have g: "g (jobId a) (Suc 0) = Inl e1" "g (jobId a) (Suc (Suc 0)) = Inl e2"
    "g (jobId a) (Suc (Suc (Suc 0))) = Inr snap"
    using assms(1-3) by (simp_all add: eval_nat_numeral)
  have m: "\<not> maxAttempts a \<le> int (Suc (Suc (Suc 0)))" using assms(7) by simp
  obtain s1 where s1: "pollBody g a s = (s1, Some (pollInterval a * 2))"
    "attempts s1 = Suc 0" "consecutiveErrors s1 = Suc 0" "promise s1 = promise s"
    "cbState s1 = cbState s"
    by (cases rule: pollBody_cases [of g a s])
       (use g assms(8,9) in \<open>simp_all add: maxConsecutiveErrors_def\<close>)
  obtain s2 where s2: "pollBody g a s1 = (s2, Some (pollInterval a * 2))"
    "attempts s2 = Suc (Suc 0)" "consecutiveErrors s2 = Suc (Suc 0)" "promise s2 = promise s"
    "cbState s2 = cbState s"
    by (cases rule: pollBody_cases [of g a s1])
       (use g s1 in \<open>simp_all add: maxConsecutiveErrors_def\<close>)
  obtain s3 where s3: "pollBody g a s2 = (s3, Some (pollInterval a))"
    "consecutiveErrors s3 = 0" "promise s3 = promise s"
    by (cases rule: pollBody_cases [of g a s2])
       (use g m assms(4,5,6) s2 in simp_all)
  show ?thesis by (simp add: s1 s2 s3)
qed

text \<open>
  C5 as the code has it. Every successful fetch whose snapshot the progress callback takes
  without throwing (or that has no callback to call) leaves \<^verbatim>\<open>consecutiveErrors\<close> at 0,
  whatever it was before, so a session whose earlier requests failed goes on as usual after
  a success: it schedules the next tick after the plain interval. In particular, when
  requests 1 and 2 fail and request 3 finds the job running, the third run clears the
  streak of 2 and the session goes on. When the failed fetches in a row reach the limit
  with no success between them, the session, whatever its callback, returns rejected with
  the reason \<^verbatim>\<open>Connection lost after N retries: <last error>\<close>, where \<open>N\<close> is the limit and the
  last error is the message of the failure that reached it.
\<close>

theorem success_resets_streak_and_limit_rejects:
  "(g (jobId a) (attempts s + 1) = Inr snap \<and> thrownBy a snap (cbState s) = None
      \<longrightarrow> consecutiveErrors (fst (pollBody g a s)) = 0)
   \<and> (g (jobId a) (attempts s + 1) = Inr snap \<and> thrownBy a snap (cbState s) = None
        \<and> status snap \<noteq> JobCompleted
        \<and> status snap \<noteq> JobFailed \<and> int (attempts s + 1) < maxAttempts a
      \<longrightarrow> snd (pollBody g a s) = Some (pollInterval a)
          \<and> promise (fst (pollBody g a s)) = promise s)
   \<and> (g (jobId a) 1 = Inl e1 \<and> g (jobId a) 2 = Inl e2 \<and> g (jobId a) 3 = Inr snap
        \<and> thrownBy a snap (cbState s) = None
        \<and> status snap \<noteq> JobCompleted \<and> status snap \<noteq> JobFailed \<and> 3 < maxAttempts a
        \<and> attempts s = 0 \<and> consecutiveErrors s = 0
      \<longrightarrow> consecutiveErrors (fst (pollBody g a (fst (pollBody g a s)))) = 2
          \<and> consecutiveErrors
               (fst (pollBody g a (fst (pollBody g a (fst (pollBody g a s)))))) = 0
          \<and> snd (pollBody g a (fst (pollBody g a (fst (pollBody g a s)))))
              = Some (pollInterval a)
          \<and> promise (fst (pollBody g a (fst (pollBody g a (fst (pollBody g a s))))))
              = promise s)
   \<and> (promise s = PromisePending \<and> consecutiveErrors s + Suc n = maxConsecutiveErrors
        \<and> (\<forall>k. 1 \<le> k \<and> k \<le> Suc n \<longrightarrow> (\<exists>e. g (jobId a) (attempts s + k) = Inl e))
        \<and> g (jobId a) (attempts s + Suc n) = Inl err
      \<longrightarrow> (\<exists>fin. poll g a s = Some fin
            \<and> promise fin
                = Rejected (ErrorObj (''Connection lost after ''
                    @ showNumber (int maxConsecutiveErrors)
                    @ '' retries: '' @ errMessage err ''Unknown error''))
            \<and> requestsOf (trace fin) = requestsOf (trace s) + Suc n))"
  (is "(?A1 \<longrightarrow> ?B1) \<and> (?A2 \<longrightarrow> ?B2) \<and> (?A3 \<longrightarrow> ?B3) \<and> (?A4 \<longrightarrow> ?B4)")
proof -
  have 1: ?B1 if h: ?A1
    by (cases rule: pollBody_cases [of g a s]) (use h in simp_all)
  have 2: ?B2 if h: ?A2
    by (cases rule: pollBody_cases [of g a s]) (use h in simp_all)
  have 3: ?B3 if h: ?A3
    using h poll_two_failures_then_success [of g a e1 e2 snap s] by blast
  have 4: ?B4 if h: ?A4
  proof -
    from h have "\<exists>fin. poll g a s = Some fin
        \<and> promise fin = Rejected (ErrorObj (lostMessage err))
        \<and> requestsOf (trace fin) = requestsOf (trace s) + Suc n"
      using poll_failure_streak [of s n g a err] by blast
    then show ?thesis
      by (simp add: lostMessage_def maxConsecutiveErrors_def showNumber_10)
  qed
  from 1 2 3 4 show ?thesis by blast
qed

theorem success_resets_streak_and_limit_rejects_witness:
  "flakyThenDone ''job-1'' 1 = Inl (ErrorObj ''Network Error'')
   \<and> flakyThenDone ''job-1'' 2 = Inl (ErrorObj ''Network Error'')
   \<and> flakyThenDone ''job-1'' 3 = Inr (snapshot JobProcessing (Some ''extracting'') None)
   \<and> thrownBy (pollArgsOf ''job-1'' (None :: (unit, unit) callback option) None None)
        (snapshot JobProcessing (Some ''extracting'') None) () = None
   \<and> consecutiveErrors
        (fst (pollBody flakyThenDone (pollArgsOf ''job-1'' None None None)
               \<lparr>attempts = 2, consecutiveErrors = 2, promise = PromisePending, cbState = (),
                trace = []\<rparr>)) = 0
   \<and> snd (pollBody flakyThenDone (pollArgsOf ''job-1'' None None None)
               \<lparr>attempts = 2, consecutiveErrors = 2, promise = PromisePending, cbState = (),
                trace = []\<rparr>) = Some 3000
   \<and> consecutiveErrors
        (fst (pollBody flakyThenDone (pollArgsOf ''job-1'' None None None)
          (fst (pollBody flakyThenDone (pollArgsOf ''job-1'' None None None)
          (fst (pollBody flakyThenDone (pollArgsOf ''job-1'' None None None)
                 (pollStart ()))))))) = 0
   \<and> map_option promise (poll alwaysFails (pollArgsOf ''job-1'' None None None) (pollStart ()))
       = Some (Rejected (ErrorObj ''Connection lost after 10 retries: Network Error''))
   \<and> map_option (\<lambda>fin. requestsOf (trace fin))
        (poll alwaysFails (pollArgsOf ''job-1'' None None None) (pollStart ())) = Some 10"
proof -
  let ?a = "pollArgsOf ''job-1'' None None None :: (unit, unit) pollArgs"
  let ?s0 = "pollStart () :: (unit, unit) session"
  let ?s2 = "\<lparr>attempts = 2, consecutiveErrors = 2, promise = PromisePending, cbState = (),
               trace = []\<rparr> :: (unit, unit) session"
  let ?snap = "snapshot JobProcessing (Some ''extracting'') None"
  have f: "flakyThenDone ''job-1'' 1 = Inl (ErrorObj ''Network Error'')"
    "flakyThenDone ''job-1'' 2 = Inl (ErrorObj ''Network Error'')"
    "flakyThenDone ''job-1'' 3 = Inr ?snap"
    "status ?snap \<noteq> JobCompleted" "status ?snap \<noteq> JobFailed"
    by (simp_all add: flakyThenDone_def snapshot_def)
  have th: "thrownBy ?a ?snap () = None" by (simp add: thrownBy_def pollArgsOf_def)
  have a: "jobId ?a = ''job-1''" "pollInterval ?a = 3000" "maxAttempts ?a = 600"
    by (simp_all add: pollArgsOf_def)
  have s: "attempts ?s0 = 0" "consecutiveErrors ?s0 = 0" "promise ?s0 = PromisePending"
    "cbState ?s0 = ()" "trace ?s0 = []"
    by (simp_all add: pollStart_def)
  note t2 = success_resets_streak_and_limit_rejects
              [of flakyThenDone ?a ?s2 ?snap "ErrorObj ''Network Error''"
                  "ErrorObj ''Network Error''" 0 "ErrorObj ''Network Error''"]
  have "flakyThenDone (jobId ?a) (attempts ?s2 + 1) = Inr ?snap"
    "thrownBy ?a ?snap (cbState ?s2) = None"
    "int (attempts ?s2 + 1) < maxAttempts ?a"
    using f(3) th by (simp_all add: a)
  with t2 f(4,5) have 1: "consecutiveErrors (fst (pollBody flakyThenDone ?a ?s2)) = 0"
    "snd (pollBody flakyThenDone ?a ?s2) = Some (pollInterval ?a)"
    by blast+
  note t0 = success_resets_streak_and_limit_rejects
              [of flakyThenDone ?a ?s0 ?snap "ErrorObj ''Network Error''"
                  "ErrorObj ''Network Error''" 0 "ErrorObj ''Network Error''"]
  have "flakyThenDone (jobId ?a) 1 = Inl (ErrorObj ''Network Error'')"
    "flakyThenDone (jobId ?a) 2 = Inl (ErrorObj ''Network Error'')"
    "flakyThenDone (jobId ?a) 3 = Inr ?snap" "thrownBy ?a ?snap (cbState ?s0) = None"
    "3 < maxAttempts ?a"
    "attempts ?s0 = 0" "consecutiveErrors ?s0 = 0"
    using f(1-3) th by (simp_all add: a s)
  with t0 f(4,5)
  have 2: "consecutiveErrors (fst (pollBody flakyThenDone ?a
             (fst (pollBody flakyThenDone ?a (fst (pollBody flakyThenDone ?a ?s0)))))) = 0"
    by blast
  note t3 = success_resets_streak_and_limit_rejects
              [of alwaysFails ?a ?s0 ?snap "ErrorObj ''Network Error''"
                  "ErrorObj ''Network Error''" 9 "ErrorObj ''Network Error''"]
  have "promise ?s0 = PromisePending" "consecutiveErrors ?s0 + Suc 9 = maxConsecutiveErrors"
    "\<forall>k. 1 \<le> k \<and> k \<le> Suc 9 \<longrightarrow> (\<exists>e. alwaysFails (jobId ?a) (attempts ?s0 + k) = Inl e)"
    "alwaysFails (jobId ?a) (attempts ?s0 + Suc 9) = Inl (ErrorObj ''Network Error'')"
    by (simp_all add: alwaysFails_def maxConsecutiveErrors_def s)
  with t3 have "\<exists>fin. poll alwaysFails ?a ?s0 = Some fin
          \<and> promise fin
            = Rejected (ErrorObj (''Connection lost after '' @ showNumber (int maxConsecutiveErrors)
                   @ '' retries: '' @ errMessage (ErrorObj ''Network Error'') ''Unknown error''))
          \<and> requestsOf (trace fin) = requestsOf (trace ?s0) + Suc 9"
    by blast
  then have 3: "map_option promise (poll alwaysFails ?a ?s0)
        = Some (Rejected (ErrorObj ''Connection lost after 10 retries: Network Error''))"
    "map_option (\<lambda>fin. requestsOf (trace fin)) (poll alwaysFails ?a ?s0) = Some 10"
    by (auto simp: maxConsecutiveErrors_def showNumber_10 errMessage_def requestsOf_def s)
  from f(1-3) th 1 2 3 show ?thesis by (simp add: a)
qed

text \<open>
  The claim C5 as stated fails. The streak is set to 0 before the callback is called, and a
  callback that throws sends the run to the \<^verbatim>\<open>catch\<close> block, which counts one failure. With
  an endpoint that fails at requests 1 and 2 and answers at request 3, and a callback that
  throws, the run of the successful third fetch ends with \<^verbatim>\<open>consecutiveErrors = 1\<close> and the
  next tick is set after twice the interval.
\<close>

theorem throwing_callback_leaves_streak_at_one:
  "flakyThenDone ''job-1'' 3 = Inr (snapshot JobProcessing (Some ''extracting'') None)
   \<and> pollRuns 3 flakyThenDone (pollArgsOf ''job-1'' (Some throwingCallback) None None)
       (pollStart ()) =
     \<lparr>attempts = 3, consecutiveErrors = 1, promise = PromisePending, cbState = (),
      trace = [Request 1, Timer 6000, Request 2, Timer 6000,
               Request 3, Progress (snapshot JobProcessing (Some ''extracting'') None),
               Timer 6000]\<rparr>"
  by (simp add: eval_nat_numeral tick_eval flakyThenDone_def throwingCallback_def
      pollArgsOf_def pollStart_def)

text \<open>The session of the endpoint \<open>alwaysProcessing\<close> with a budget of 3, run by hand.\<close>

lemma alwaysProcessing_session:
  "pollJobUntilComplete alwaysProcessing ''job-1'' None None (Some 3) () =
     Some \<lparr>attempts = 3, consecutiveErrors = 0,
           promise = Rejected (ErrorObj ''Job timed out after 30 minutes''), cbState = (),
           trace = [Request 1, Timer 3000, Request 2, Timer 3000, Request 3,
                    Reject (ErrorObj ''Job timed out after 30 minutes'')]\<rparr>"
  unfolding pollJobUntilComplete_def pollArgsOf_def pollStart_def
  apply (subst poll.simps, simp add: tick_eval alwaysProcessing_def snapshot_def)
  apply (subst poll.simps, simp add: tick_eval alwaysProcessing_def snapshot_def)
  apply (subst poll.simps, simp add: tick_eval alwaysProcessing_def snapshot_def)
  done

text \<open>
  C7. A failed fetch never makes the session time out: the run that meets it does not
  compare \<^verbatim>\<open>attempts\<close> with \<^verbatim>\<open>maxAttempts\<close>, whatever their values, and a session that
  returns rejected as timed out, whatever its callback, had its last request answered.
  While the streak of failures is below the limit, a failed fetch sets the timer for the
  next run to twice the poll interval and settles nothing.
\<close>

theorem failed_fetch_backs_off_never_times_out:
  "(g (jobId a) (attempts s + 1) = Inl err \<and> promise s = PromisePending
      \<longrightarrow> promise (fst (pollBody g a s)) \<noteq> Rejected (ErrorObj ''Job timed out after 30 minutes''))
   \<and> (g (jobId a) (attempts s + 1) = Inl err \<and> consecutiveErrors s + 1 < maxConsecutiveErrors
      \<longrightarrow> snd (pollBody g a s) = Some (pollInterval a * 2)
          \<and> trace (fst (pollBody g a s))
              = trace s @ [Request (attempts s + 1), Timer (pollInterval a * 2)]
          \<and> promise (fst (pollBody g a s)) = promise s)
   \<and> (pollJobUntilComplete g jid cb pollIntervalArg maxAttemptsArg c0 = Some fin
        \<and> promise fin = Rejected (ErrorObj ''Job timed out after 30 minutes'')
      \<longrightarrow> (\<exists>st. g jid (attempts fin) = Inr st))"
  (is "(?A1 \<longrightarrow> ?B1) \<and> (?A2 \<longrightarrow> ?B2) \<and> (?A3 \<longrightarrow> ?B3)")
proof -
  have 1: ?B1 if h: ?A1
    by (cases rule: pollBody_cases [of g a s])
       (use h lostMessage_not_timeout in \<open>auto simp: settle_def\<close>)
  have 2: ?B2 if h: ?A2
    by (cases rule: pollBody_cases [of g a s]) (use h in simp_all)
  have 3: ?B3 if h: ?A3
    using poll_timeout_after_success
            [of g "pollArgsOf jid cb pollIntervalArg maxAttemptsArg" "pollStart c0" fin] h
    by (simp add: pollJobUntilComplete_def pollArgsOf_def pollStart_def)
  from 1 2 3 show ?thesis by blast
qed

theorem failed_fetch_backs_off_never_times_out_witness:
  "alwaysFails ''job-1'' 1 = Inl (ErrorObj ''Network Error'')
   \<and> maxAttempts (pollArgsOf ''job-1'' (None :: (unit, unit) callback option) (Some 1000)
        (Some 1)) \<le> 1
   \<and> snd (pollBody alwaysFails (pollArgsOf ''job-1'' None (Some 1000) (Some 1))
            (pollStart ())) = Some 2000
   \<and> trace (fst (pollBody alwaysFails (pollArgsOf ''job-1'' None (Some 1000) (Some 1))
            (pollStart ()))) = [Request 1, Timer 2000]
   \<and> promise (fst (pollBody alwaysFails (pollArgsOf ''job-1'' None (Some 1000) (Some 1))
            (pollStart ()))) = PromisePending
   \<and> pollJobUntilComplete alwaysProcessing ''job-1'' None None (Some 3) () =
       Some \<lparr>attempts = 3, consecutiveErrors = 0,
             promise = Rejected (ErrorObj ''Job timed out after 30 minutes''), cbState = (),
             trace = [Request 1, Timer 3000, Request 2, Timer 3000, Request 3,
                      Reject (ErrorObj ''Job timed out after 30 minutes'')]\<rparr>
   \<and> alwaysProcessing ''job-1'' 3 = Inr (snapshot JobProcessing (Some ''extracting'') None)"
proof -
  let ?a = "pollArgsOf ''job-1'' None (Some 1000) (Some 1) :: (unit, unit) pollArgs"
  let ?s = "pollStart () :: (unit, unit) session"
  let ?fin = "\<lparr>attempts = 3, consecutiveErrors = 0,
             promise = Rejected (ErrorObj ''Job timed out after 30 minutes''), cbState = (),
             trace = [Request 1, Timer 3000, Request 2, Timer 3000, Request 3,
                      Reject (ErrorObj ''Job timed out after 30 minutes'')]\<rparr>
             :: (unit, unit) session"
  have a: "jobId ?a = ''job-1''" "pollInterval ?a = 1000" "maxAttempts ?a = 1"
    by (simp_all add: pollArgsOf_def)
  have s: "attempts ?s = 0" "consecutiveErrors ?s = 0" "promise ?s = PromisePending"
    "trace ?s = []"
    by (simp_all add: pollStart_def)
  have f: "alwaysFails (jobId ?a) (attempts ?s + 1) = Inl (ErrorObj ''Network Error'')"
    "consecutiveErrors ?s + 1 < maxConsecutiveErrors" "promise ?s = PromisePending"
    by (simp_all add: alwaysFails_def maxConsecutiveErrors_def s)
  note t1 = failed_fetch_backs_off_never_times_out
              [of alwaysFails ?a ?s "ErrorObj ''Network Error''" "''job-1''"
                  None None "Some 3" "()" ?fin]
  from t1 f have 1: "snd (pollBody alwaysFails ?a ?s) = Some (pollInterval ?a * 2)
      \<and> trace (fst (pollBody alwaysFails ?a ?s))
          = trace ?s @ [Request (attempts ?s + 1), Timer (pollInterval ?a * 2)]
      \<and> promise (fst (pollBody alwaysFails ?a ?s)) = promise ?s"
    by blast
  have fin: "pollJobUntilComplete alwaysProcessing ''job-1'' None None (Some 3) () = Some ?fin"
    by (rule alwaysProcessing_session)
  have p: "promise ?fin = Rejected (ErrorObj ''Job timed out after 30 minutes'')" by simp
  note t2 = failed_fetch_backs_off_never_times_out
              [of alwaysProcessing ?a ?s "ErrorObj ''Network Error''" "''job-1''"
                  None None "Some 3" "()" ?fin]
  from t2 fin p have "\<exists>st. alwaysProcessing ''job-1'' (attempts ?fin) = Inr st"
    by blast
  then have 2: "alwaysProcessing ''job-1'' 3 = Inr (snapshot JobProcessing (Some ''extracting'') None)"
    by (simp add: alwaysProcessing_def)
  from 1 fin 2 show ?thesis by (simp add: alwaysFails_def a s)
qed

section \<open>The source against the specification's algorithm\<close>

text \<open>
  The specification's callback is a function on its state and has no way to fail. From any
  unsettled state, the source's session with such a callback, when it returns, is the
  specification's algorithm run with a tolerance of 10 failures and a backoff multiplier
  of 2.
\<close>

lemma notify_returning:
  "onProgress a = map_option returning cb \<Longrightarrow>
   notify a st c = (case cb of None \<Rightarrow> c | Some f \<Rightarrow> f st c)"
  by (cases cb) (simp_all add: notify_def returning_def)

lemma thrownBy_returning: "onProgress a = map_option returning cb \<Longrightarrow> thrownBy a st c = None"
  by (cases cb) (simp_all add: thrownBy_def returning_def)

lemma poll_refines_specPoll:
  "poll g a s = Some fin \<Longrightarrow> onProgress a = map_option returning cb \<Longrightarrow>
   promise s = PromisePending \<Longrightarrow> requestsOf (trace s) = attempts s \<Longrightarrow>
   (promise fin, requestsOf (trace fin), delaysOf (trace fin), cbState fin)
   = (case specPoll g (jobId a) cb
             \<lparr>opt_pollIntervalMs = pollInterval a, opt_maxAttempts = maxAttempts a,
              opt_maxConsecutiveErrors = 10, opt_backoffMultiplier = 2\<rparr>
             (attempts s) (consecutiveErrors s) (delaysOf (trace s)) (cbState s) of
        (out, n, ds, c) \<Rightarrow> (promiseOf out, n, ds, c))"
proof (induction rule: poll_run_induct)
  case (retry s s' err)
  have "promise s' = PromisePending" "requestsOf (trace s') = attempts s'"
    using retry.prems by (simp_all add: retry.hyps log_simps)
  from retry.IH [OF retry.prems(1) this] retry.hyps(1,2) show ?case
    by (subst specPoll.simps)
       (simp add: retry.hyps(3-7) log_simps maxConsecutiveErrors_def mult.commute)
next
  case (threw s s' st err)
  then show ?case by (simp add: thrownBy_returning)
next
  case (again s s' st)
  have "promise s' = PromisePending" "requestsOf (trace s') = attempts s'"
    using again.prems by (simp_all add: again.hyps log_simps)
  from again.IH [OF again.prems(1) this] again.hyps(1-5) show ?case
    by (subst specPoll.simps)
       (simp add: again.hyps(6-10) log_simps notify_returning [OF again.prems(1)])
next
  case (lost s err)
  from lost.hyps(1,2) lost.prems show ?case
    by (subst specPoll.simps)
       (simp add: lost.hyps(3-7) log_simps maxConsecutiveErrors_def
          settle_def lostMessage_def showNumber_10)
next
  case (succeeded s st)
  from succeeded.hyps(1-3) succeeded.prems show ?case
    by (subst specPoll.simps)
       (simp add: succeeded.hyps(4-8) log_simps settle_def notify_returning)
next
  case (jobFailed s st)
  from jobFailed.hyps(1-3) jobFailed.prems show ?case
    by (subst specPoll.simps)
       (simp add: jobFailed.hyps(4-8) log_simps settle_def notify_returning)
next
  case (timedOut s st)
  from timedOut.hyps(1-5) timedOut.prems show ?case
    by (subst specPoll.simps)
       (simp add: timedOut.hyps(6-10) log_simps settle_def notify_returning)
qed

text \<open>
  C9 as the code has it. The polling layer takes the poll interval (3000 when missing) and
  the attempt budget (600 when missing) from its caller and nothing else: for every
  interval and budget, and every callback that returns normally, the session returns, and
  its promise, its number of requests, its timer delays and its callback state are those of
  the specification's algorithm with \<open>maxConsecutiveErrors = 10\<close> and
  \<open>backoffMultiplier = 2\<close>. The tolerance and the multiplier are fixed internals.
\<close>

theorem tolerance_and_backoff_are_fixed:
  "map_option (\<lambda>fin. (promise fin, requestsOf (trace fin), delaysOf (trace fin), cbState fin))
     (pollJobUntilComplete g jid (map_option returning cb) pollIntervalArg maxAttemptsArg c0)
   = Some (case specPoll g jid cb
             \<lparr>opt_pollIntervalMs = (case pollIntervalArg of None \<Rightarrow> 3000 | Some v \<Rightarrow> v),
              opt_maxAttempts = (case maxAttemptsArg of None \<Rightarrow> 600 | Some v \<Rightarrow> v),
              opt_maxConsecutiveErrors = 10, opt_backoffMultiplier = 2\<rparr> 0 0 [] c0 of
        (out, n, ds, c) \<Rightarrow> (promiseOf out, n, ds, c))"
proof -
  let ?a = "pollArgsOf jid (map_option returning cb) pollIntervalArg maxAttemptsArg"
  let ?s = "pollStart c0 :: ('a, 'b) session"
  have cb: "onProgress ?a = map_option returning cb" by (simp add: pollArgsOf_def)
  have "neverThrows (onProgress ?a)"
    by (cases cb) (simp_all add: pollArgsOf_def neverThrows_None neverThrows_returning)
  then obtain fin where fin: "poll g ?a ?s = Some fin"
    using poll_returns [of ?a g ?s] by blast
  from poll_refines_specPoll [OF fin cb]
  have "(promise fin, requestsOf (trace fin), delaysOf (trace fin), cbState fin)
      = (case specPoll g jid cb
             \<lparr>opt_pollIntervalMs = (case pollIntervalArg of None \<Rightarrow> 3000 | Some v \<Rightarrow> v),
              opt_maxAttempts = (case maxAttemptsArg of None \<Rightarrow> 600 | Some v \<Rightarrow> v),
              opt_maxConsecutiveErrors = 10, opt_backoffMultiplier = 2\<rparr> 0 0 [] c0 of
        (out, n, ds, c) \<Rightarrow> (promiseOf out, n, ds, c))"
    by (simp add: pollArgsOf_def pollStart_def requestsOf_def)
  then show ?thesis
    unfolding pollJobUntilComplete_def fin by simp
qed

text \<open>The endpoint that always fails, under the source and under the specification.\<close>

lemma alwaysFails_session:
  "map_option (\<lambda>fin. (delaysOf (trace fin), requestsOf (trace fin)))
     (pollJobUntilComplete alwaysFails ''job-1'' None (Some 1000) (Some 600) ())
   = Some (replicate 9 2000, 10)"
  unfolding pollJobUntilComplete_def
  using poll_failure_streak
          [of "pollStart ()" 9 alwaysFails "pollArgsOf ''job-1'' None (Some 1000) (Some 600)"
              "ErrorObj ''Network Error''"]
  by (auto simp: alwaysFails_def maxConsecutiveErrors_def requestsOf_def pollStart_def
      pollArgsOf_def)

lemma alwaysFails_spec:
  "specPoll alwaysFails ''job-1'' None
     \<lparr>opt_pollIntervalMs = 1000, opt_maxAttempts = 600, opt_maxConsecutiveErrors = 2,
      opt_backoffMultiplier = 3\<rparr> 0 0 [] ()
   = (FailedConnection 2 (ErrorObj ''Network Error''), 2, [3000], ())"
  apply (subst specPoll.simps)
  apply (simp add: alwaysFails_def)
  apply (subst specPoll.simps)
  apply (simp add: alwaysFails_def)
  done

text \<open>
  The claim C9 as stated fails: with a tolerance of 2 and a multiplier of 3 the
  specification's algorithm makes 2 requests and waits 3000 once, while the source, which
  has no way to be given either option, makes 10 requests and waits 2000 nine times.
\<close>

theorem tolerance_and_backoff_not_configurable:
  "map_option (\<lambda>fin. (delaysOf (trace fin), requestsOf (trace fin)))
     (pollJobUntilComplete alwaysFails ''job-1'' None (Some 1000) (Some 600) ())
     = Some ([2000, 2000, 2000, 2000, 2000, 2000, 2000, 2000, 2000], 10)
   \<and> specPoll alwaysFails ''job-1'' None
       \<lparr>opt_pollIntervalMs = 1000, opt_maxAttempts = 600, opt_maxConsecutiveErrors = 2,
        opt_backoffMultiplier = 3\<rparr> 0 0 [] ()
      = (FailedConnection 2 (ErrorObj ''Network Error''), 2, [3000], ())"
  using alwaysFails_session alwaysFails_spec by (simp add: numeral_eq_Suc)

section \<open>The failed job\<close>

lemma selectCatch_nth:
  "i < length (processingSteps ap) \<Longrightarrow>
   processingSteps (selectCatch err ap) ! i =
     (if step_status (processingSteps ap ! i) = Active \<or> step_status (processingSteps ap ! i) = Pending
      then (processingSteps ap ! i)\<lparr>step_status := Error\<rparr> else processingSteps ap ! i)"
  by (simp add: selectCatch_def)

lemma selectCatch_terminal:
  "s \<in> set (processingSteps (selectCatch err ap)) \<Longrightarrow> terminal s"
  by (cases "appError ap") (auto simp: selectCatch_def terminal_def intro: StepStatus.exhaust)

lemma handleSelectPaper_failed_terminal:
  assumes "handleSelectPaper startAsyncProcess g arxivId ap = Some ap'"
    and "appError ap' \<noteq> None"
    and "s \<in> set (processingSteps ap')"
  shows "terminal s"
proof (cases "startAsyncProcess arxivId")
  case (Inl err)
  then have "handleSelectPaper startAsyncProcess g arxivId ap = Some (selectCatch err
       (ap\<lparr>state := PageProcessing, appError := None,
           processingSteps := updateStep ''fetch'' Active (Some ''Starting job...'')
             (resetSteps (processingSteps ap))\<rparr>))"
    by (simp add: handleSelectPaper_def resetSteps_def Let_def)
  with assms(1,3) show ?thesis by (auto dest: selectCatch_terminal)
next
  case (Inr jid)
  obtain fin where fin: "selectSession g jid ap = Some fin"
    using selectSession_returns [of g jid ap] by blast
  note h = handleSelectPaper_started
             [where startAsyncProcess = startAsyncProcess and arxivId = arxivId, OF Inr fin]
  show ?thesis
  proof (cases "promise fin")
    case PromisePending
    with assms(1) h show ?thesis by (simp add: Let_def)
  next
    case (Fulfilled st)
    with assms(1,2) h show ?thesis by (auto simp: Let_def selectDone_def)
  next
    case (Rejected err)
    with assms(1,3) h show ?thesis by (auto simp: Let_def dest: selectCatch_terminal)
  qed
qed

text \<open>
  C3 as the code has it. The stage mapper reads the stage token, not the lifecycle: on a
  snapshot whose lowercased stage token is \<open>failed\<close> it sets every active step (so, with
  one active step, exactly that one) to error with the stage detail as description, or
  \<open>Failed\<close> when the detail is absent or empty, and leaves every other step, completed or
  pending, exactly as it is. When the session then rejects, the \<^verbatim>\<open>catch\<close> block of
  \<^verbatim>\<open>handleSelectPaper\<close> sets every step still pending or active to error and keeps its
  description, so a run of \<^verbatim>\<open>handleSelectPaper\<close>, which always returns, leaves no step
  pending or active when it ends with an error message.
\<close>

theorem failed_stage_marks_active_steps:
  "(stageOf snap = ''failed'' \<and> i < length steps
      \<longrightarrow> length (handleProgress snap steps) = length steps
          \<and> handleProgress snap steps ! i =
              (if step_status (steps ! i) = Active
               then (steps ! i)\<lparr>step_status := Error,
                                 description := orUndef (stage_detail snap) ''Failed''\<rparr>
               else steps ! i))
   \<and> (i < length (processingSteps ap)
      \<longrightarrow> processingSteps (selectCatch err ap) ! i =
            (if step_status (processingSteps ap ! i) = Active
                \<or> step_status (processingSteps ap ! i) = Pending
             then (processingSteps ap ! i)\<lparr>step_status := Error\<rparr>
             else processingSteps ap ! i))
   \<and> (\<exists>ap'. handleSelectPaper startAsyncProcess g arxivId ap = Some ap')
   \<and> (handleSelectPaper startAsyncProcess g arxivId ap = Some ap' \<and> appError ap' \<noteq> None
      \<longrightarrow> (\<forall>s \<in> set (processingSteps ap').
             step_status s = Completed \<or> step_status s = Error))"
  (is "(?A1 \<longrightarrow> ?B1) \<and> (?A2 \<longrightarrow> ?B2) \<and> ?B3 \<and> (?A4 \<longrightarrow> ?B4)")
proof -
  have 1: ?B1 if h: ?A1
    using h by (simp add: length_handleProgress handleProgress_failed_nth)
  have 2: ?B2 if h: ?A2
    using h by (rule selectCatch_nth)
  have 3: ?B3 by (rule handleSelectPaper_returns)
  have 4: ?B4 if h: ?A4
    using handleSelectPaper_failed_terminal [of startAsyncProcess g arxivId ap ap'] h
    by (simp add: terminal_def)
  from 1 2 3 4 show ?thesis by blast
qed

text \<open>The session of the endpoint \<open>runsThenFails\<close>, run by hand.\<close>

lemma startedSteps:
  "updateStep ''fetch'' Active (Some ''Job started, fetching paper...'')
     (updateStep ''fetch'' Active (Some ''Starting job...'') (resetSteps initialSteps)) =
     [\<lparr>step_id = ''fetch'', title = ''Fetching Paper'',
        description = ''Job started, fetching paper...'', step_status = Active\<rparr>,
      \<lparr>step_id = ''extract'', title = ''Extracting'', description = ''Analyzing...'',
        step_status = Pending\<rparr>,
      \<lparr>step_id = ''segment'', title = ''Segmenting'', description = ''Breaking down...'',
        step_status = Pending\<rparr>,
      \<lparr>step_id = ''animate'', title = ''Animating'', description = ''Creating visuals...'',
        step_status = Pending\<rparr>]"
  by (simp add: updateStep_def resetSteps_def initialSteps_def orUndef_def orStr_def)

lemma runsThenFails_session:
  "selectSession runsThenFails ''job-1'' freshApp =
     Some \<lparr>attempts = 2, consecutiveErrors = 0, promise = Rejected (ErrorObj ''Job failed''),
      cbState =
        [\<lparr>step_id = ''fetch'', title = ''Fetching Paper'', description = ''Paper downloaded'',
           step_status = Completed\<rparr>,
         \<lparr>step_id = ''extract'', title = ''Extracting'', description = ''Failed'',
           step_status = Error\<rparr>,
         \<lparr>step_id = ''segment'', title = ''Segmenting'', description = ''Breaking down...'',
           step_status = Pending\<rparr>,
         \<lparr>step_id = ''animate'', title = ''Animating'', description = ''Creating visuals...'',
           step_status = Pending\<rparr>],
      trace =
        [Request 1, Progress (snapshot JobProcessing (Some ''extracting'') None), Timer 3000,
         Request 2, Progress (snapshot JobFailed (Some ''failed'') None),
         Reject (ErrorObj ''Job failed'')]\<rparr>"
  unfolding selectSession_def pollJobUntilComplete_def pollArgsOf_def pollStart_def
  apply (simp add: freshApp_def startedSteps)
  apply (subst poll.simps)
  apply (simp add: tick_eval runsThenFails_def handleProgress_snapshot updateStep_def
      orUndef_def orStr_def returning_def)
  apply (subst poll.simps)
  apply (simp add: tick_eval runsThenFails_def handleProgress_snapshot returning_def)
  apply (simp add: snapshot_def orUndef_def)
  done

lemma runsThenFails_app:
  "handleSelectPaper startOk runsThenFails ''2401.00001'' freshApp =
     Some (selectCatch (ErrorObj ''Job failed'')
        (freshApp\<lparr>state := PageProcessing, appError := None,
           processingSteps :=
             [\<lparr>step_id = ''fetch'', title = ''Fetching Paper'',
                description = ''Paper downloaded'', step_status = Completed\<rparr>,
              \<lparr>step_id = ''extract'', title = ''Extracting'', description = ''Failed'',
                step_status = Error\<rparr>,
              \<lparr>step_id = ''segment'', title = ''Segmenting'',
                description = ''Breaking down...'', step_status = Pending\<rparr>,
              \<lparr>step_id = ''animate'', title = ''Animating'',
                description = ''Creating visuals...'', step_status = Pending\<rparr>]\<rparr>))"
  by (simp add: handleSelectPaper_started [of startOk "''2401.00001''" "''job-1''", OF _ runsThenFails_session]
      startOk_def Let_def)

theorem failed_stage_marks_active_steps_witness:
  "stageOf (snapshot JobFailed (Some ''failed'') None) = ''failed'' \<and> 1 < length midSteps
   \<and> step_status (midSteps ! 1) = Active
   \<and> handleProgress (snapshot JobFailed (Some ''failed'') None) midSteps ! 1
       = \<lparr>step_id = ''extract'', title = ''Extracting'', description = ''Failed'',
          step_status = Error\<rparr>
   \<and> processingSteps (selectCatch (ErrorObj ''Job failed'') freshApp) ! 1
       = \<lparr>step_id = ''extract'', title = ''Extracting'', description = ''Analyzing...'',
          step_status = Error\<rparr>
   \<and> map_option (\<lambda>ap'. appError ap' \<noteq> None)
        (handleSelectPaper startOk runsThenFails ''2401.00001'' freshApp) = Some True
   \<and> map_option (\<lambda>ap'. set (map step_status (processingSteps ap')) \<subseteq> {Completed, Error})
        (handleSelectPaper startOk runsThenFails ''2401.00001'' freshApp) = Some True"
proof -
  define ap' where "ap' = selectCatch (ErrorObj ''Job failed'')
        (freshApp\<lparr>state := PageProcessing, appError := None,
           processingSteps :=
             [\<lparr>step_id = ''fetch'', title = ''Fetching Paper'',
                description = ''Paper downloaded'', step_status = Completed\<rparr>,
              \<lparr>step_id = ''extract'', title = ''Extracting'', description = ''Failed'',
                step_status = Error\<rparr>,
              \<lparr>step_id = ''segment'', title = ''Segmenting'',
                description = ''Breaking down...'', step_status = Pending\<rparr>,
              \<lparr>step_id = ''animate'', title = ''Animating'',
                description = ''Creating visuals...'', step_status = Pending\<rparr>]\<rparr>)"
  have ap: "handleSelectPaper startOk runsThenFails ''2401.00001'' freshApp = Some ap'"
    and e: "appError ap' \<noteq> None"
    by (simp_all add: ap'_def runsThenFails_app selectCatch_def)
  have st: "stageOf (snapshot JobFailed (Some ''failed'') None) = ''failed''"
    by (simp add: stageOf_snapshot)
  have len: "1 < length midSteps" "1 < length (processingSteps freshApp)"
    by (simp_all add: midSteps_def freshApp_def initialSteps_def)
  have det: "orUndef (stage_detail (snapshot JobFailed (Some ''failed'') None)) ''Failed''
      = ''Failed''"
    by (simp add: snapshot_def orUndef_def)
  note t = failed_stage_marks_active_steps
            [of "snapshot JobFailed (Some ''failed'') None" 1 midSteps freshApp
                "ErrorObj ''Job failed''" startOk runsThenFails "''2401.00001''" ap']
  from t st len(1) have 1: "handleProgress (snapshot JobFailed (Some ''failed'') None) midSteps ! 1
       = (if step_status (midSteps ! 1) = Active
          then (midSteps ! 1)\<lparr>step_status := Error, description := ''Failed''\<rparr>
          else midSteps ! 1)"
    unfolding det by blast
  from t len(2) have 2: "processingSteps (selectCatch (ErrorObj ''Job failed'') freshApp) ! 1 =
      (if step_status (processingSteps freshApp ! 1) = Active
          \<or> step_status (processingSteps freshApp ! 1) = Pending
       then (processingSteps freshApp ! 1)\<lparr>step_status := Error\<rparr>
       else processingSteps freshApp ! 1)"
    by blast
  from t ap e have "\<forall>s \<in> set (processingSteps ap').
         step_status s = Completed \<or> step_status s = Error"
    by blast
  then have 3: "set (map step_status (processingSteps ap')) \<subseteq> {Completed, Error}"
    by auto
  have 4: "step_status (midSteps ! 1) = Active" by (simp add: midSteps_def)
  from 1 have a1: "handleProgress (snapshot JobFailed (Some ''failed'') None) midSteps ! 1
       = \<lparr>step_id = ''extract'', title = ''Extracting'', description = ''Failed'',
          step_status = Error\<rparr>"
    by (simp add: midSteps_def)
  from 2 have a2: "processingSteps (selectCatch (ErrorObj ''Job failed'') freshApp) ! 1
       = \<lparr>step_id = ''extract'', title = ''Extracting'', description = ''Analyzing...'',
          step_status = Error\<rparr>"
    by (simp add: freshApp_def initialSteps_def)
  from st len(1) 4 a1 a2 e 3 show ?thesis by (simp add: ap)
qed

text \<open>
  The claim C3 as stated fails twice. A snapshot with lifecycle failed and no stage token
  leaves the active step active. And when the failed snapshot does carry the stage token
  \<open>failed\<close>, the two steps that are pending when it arrives are in error when
  \<^verbatim>\<open>handleSelectPaper\<close> has processed the failure.
\<close>

theorem failed_job_pending_steps_become_error:
  "status (snapshot JobFailed None None) = JobFailed
   \<and> step_status (midSteps ! 1) = Active
   \<and> step_status (handleProgress (snapshot JobFailed None None) midSteps ! 1) = Active
   \<and> runsThenFails ''job-1'' 2 = Inr (snapshot JobFailed (Some ''failed'') None)
   \<and> map_option (\<lambda>fin. map step_status (cbState fin))
        (selectSession runsThenFails ''job-1'' freshApp)
       = Some [Completed, Error, Pending, Pending]
   \<and> map_option (\<lambda>ap'. map step_status (processingSteps ap'))
        (handleSelectPaper startOk runsThenFails ''2401.00001'' freshApp)
       = Some [Completed, Error, Error, Error]"
proof -
  have 1: "map_option (\<lambda>ap'. map step_status (processingSteps ap'))
        (handleSelectPaper startOk runsThenFails ''2401.00001'' freshApp)
       = Some [Completed, Error, Error, Error]"
    by (simp add: runsThenFails_app selectCatch_def)
  have 2: "map_option (\<lambda>fin. map step_status (cbState fin))
        (selectSession runsThenFails ''job-1'' freshApp)
       = Some [Completed, Error, Pending, Pending]"
    by (simp add: runsThenFails_session)
  have 3: "step_status (handleProgress (snapshot JobFailed None None) midSteps ! 1) = Active"
    by (simp add: handleProgress_snapshot midSteps_def)
  have 4: "status (snapshot JobFailed None None) = JobFailed"
    "runsThenFails ''job-1'' 2 = Inr (snapshot JobFailed (Some ''failed'') None)"
    "step_status (midSteps ! 1) = Active"
    by (simp_all add: snapshot_def runsThenFails_def midSteps_def)
  from 1 2 3 4 show ?thesis by blast
qed

end
